theory Spec2Isabelle
  imports Complex_Main "HOL-Library.Sublist"
begin

section \<open>Python strings\<close>

text \<open>
  A Python \<open>str\<close> is a sequence of code points. The model is \<open>string\<close>, with a
  \<open>char\<close> read as a code point below 256; the tables below are those of Python 3 for
  that range. \<open>str.upper\<close> maps U+00B5, U+00DF and U+00FF outside the range; the model
  leaves these three unchanged.
\<close>

definition isspace :: "char \<Rightarrow> bool" where
  "isspace c = ((of_char c :: nat) \<in> {9, 10, 11, 12, 13, 28, 29, 30, 31, 32, 133, 160})"

definition lower_char :: "char \<Rightarrow> char" where
  "lower_char c =
     (let n = (of_char c :: nat)
      in if (65 \<le> n \<and> n \<le> 90) \<or> (192 \<le> n \<and> n \<le> 222 \<and> n \<noteq> 215)
         then char_of (n + 32) else c)"

definition upper_char :: "char \<Rightarrow> char" where
  "upper_char c =
     (let n = (of_char c :: nat)
      in if (97 \<le> n \<and> n \<le> 122) \<or> (224 \<le> n \<and> n \<le> 254 \<and> n \<noteq> 247)
         then char_of (n - 32) else c)"

definition lower :: "string \<Rightarrow> string" where
  "lower s = map lower_char s"

definition upper :: "string \<Rightarrow> string" where
  "upper s = map upper_char s"

text \<open>\<open>s.strip()\<close>: leading and trailing whitespace removed.\<close>

definition strip :: "string \<Rightarrow> string" where
  "strip s = rev (dropWhile isspace (rev (dropWhile isspace s)))"

text \<open>
  The maximal runs of characters that satisfy \<open>P\<close>, from left to right. With
  \<open>P\<close> the non-whitespace characters this is \<open>s.split()\<close>; with a character class
  \<open>[...]\<close> it is \<open>re.findall(r"[...]+", s)\<close>.
\<close>

fun runs :: "(char \<Rightarrow> bool) \<Rightarrow> string \<Rightarrow> string list" where
  "runs P [] = []"
| "runs P (c # cs) =
     (if \<not> P c then runs P cs
      else (case cs of
              [] \<Rightarrow> [[c]]
            | d # ds \<Rightarrow>
                (if P d then (case runs P cs of [] \<Rightarrow> [[c]] | r # rs \<Rightarrow> (c # r) # rs)
                 else [c] # runs P cs)))"

definition split :: "string \<Rightarrow> string list" where
  "split s = runs (\<lambda>c. \<not> isspace c) s"

text \<open>\<open>x in s\<close> for strings: \<open>x\<close> occurs in \<open>s\<close> as a contiguous substring.\<close>

fun is_in :: "string \<Rightarrow> string \<Rightarrow> bool" where
  "is_in x [] = (x = [])"
| "is_in x (c # cs) = (prefix x (c # cs) \<or> is_in x cs)"

text \<open>
  \<open>s.count(x)\<close>: the number of non-overlapping occurrences of \<open>x\<close> in \<open>s\<close>, scanning
  from the left; for the empty \<open>x\<close> Python returns \<open>len(s) + 1\<close>.
\<close>

function count :: "string \<Rightarrow> string \<Rightarrow> nat" where
  "count s x =
     (if x = [] then length s + 1
      else (case s of
              [] \<Rightarrow> 0
            | c # cs \<Rightarrow> (if prefix x s then 1 + count (drop (length x) s) x else count cs x)))"
  by pat_completeness auto
termination
  by (relation "measure (\<lambda>(s, x). length s)") auto

text \<open>\<open>any(k in s for k in ks)\<close>.\<close>

definition any_in :: "string list \<Rightarrow> string \<Rightarrow> bool" where
  "any_in ks s = (\<exists>k \<in> set ks. is_in k s)"

text \<open>\<open>a or b\<close> on optional strings: \<open>None\<close> and the empty string are falsy.\<close>

definition truthy :: "string option \<Rightarrow> bool" where
  "truthy v = (case v of None \<Rightarrow> False | Some s \<Rightarrow> s \<noteq> [])"

definition py_or :: "string option \<Rightarrow> string option \<Rightarrow> string option" where
  "py_or a b = (if truthy a then a else b)"

section \<open>Session memory (utils/guardrails.py, class Memory)\<close>

text \<open>
  \<open>Memory._store\<close> is a dict from session id to a dict from field name to
  \<open>Optional[str]\<close>. A stored value \<open>None\<close> is \<open>Some None\<close>; a missing key is \<open>None\<close>.
\<close>

type_synonym session = "string \<rightharpoonup> string option"
type_synonym store = "string \<rightharpoonup> session"

text \<open>The dict literal of \<open>_get_or_create\<close>.\<close>

definition new_session :: session where
  "new_session = [''last_intent'' \<mapsto> None, ''last_part'' \<mapsto> None, ''last_model'' \<mapsto> None]"

text \<open>\<open>_get_or_create\<close> returns the stored dict, inserting the literal first when the id is new.\<close>

definition get_or_create :: "store \<Rightarrow> string \<Rightarrow> store \<times> session" where
  "get_or_create st sid =
     (case st sid of
        None \<Rightarrow> (st(sid \<mapsto> new_session), new_session)
      | Some s \<Rightarrow> (st, s))"

text \<open>\<open>get\<close>: a copy of the session's dict (a value, in the model), and the store after the call.\<close>

definition get :: "store \<Rightarrow> string \<Rightarrow> store \<times> session" where
  "get st sid = get_or_create st sid"

text \<open>
  \<open>update(session_id, **kwargs)\<close>: the keyword arguments in call order; a key that the
  session's dict does not hold is skipped.
\<close>

definition set_field :: "string \<times> string option \<Rightarrow> session \<Rightarrow> session" where
  "set_field kv s = (if fst kv \<in> dom s then s(fst kv \<mapsto> snd kv) else s)"

definition update :: "store \<Rightarrow> string \<Rightarrow> (string \<times> string option) list \<Rightarrow> store" where
  "update st sid kwargs =
     (case get_or_create st sid of (st', s) \<Rightarrow> st'(sid \<mapsto> fold set_field kwargs s))"

text \<open>\<open>d.get(k)\<close> on a snapshot: \<open>None\<close> for a missing key and for a stored \<open>None\<close>.\<close>

definition dict_get :: "session \<Rightarrow> string \<Rightarrow> string option" where
  "dict_get d k = (case d k of None \<Rightarrow> None | Some v \<Rightarrow> v)"

section \<open>Entities and intent (utils/guardrails.py)\<close>

text \<open>
  Character classes of Python's \<open>re\<close> on code points below 256: \<open>\w\<close> (alphanumeric or
  underscore), \<open>\d\<close> (decimal digit) and \<open>[A-Z]\<close> under \<open>re.I\<close>.
\<close>

definition isword :: "char \<Rightarrow> bool" where
  "isword c =
     (let n = (of_char c :: nat)
      in (48 \<le> n \<and> n \<le> 57) \<or> (65 \<le> n \<and> n \<le> 90) \<or> n = 95 \<or> (97 \<le> n \<and> n \<le> 122) \<or>
         n \<in> {170, 178, 179, 181, 185, 186, 188, 189, 190} \<or>
         (192 \<le> n \<and> n \<le> 214) \<or> (216 \<le> n \<and> n \<le> 246) \<or> (248 \<le> n \<and> n \<le> 255))"

definition isdigit :: "char \<Rightarrow> bool" where
  "isdigit c = (let n = (of_char c :: nat) in 48 \<le> n \<and> n \<le> 57)"

definition isletter :: "char \<Rightarrow> bool" where
  "isletter c = (let n = (of_char c :: nat) in (65 \<le> n \<and> n \<le> 90) \<or> (97 \<le> n \<and> n \<le> 122))"

text \<open>
  The three patterns below start and end with \<open>\b\<close> and consume word characters only.
  A match therefore starts where a maximal run of word characters starts, ends where it
  ends, and is the whole run: \<open>search\<close> returns the first run of the pattern's shape and
  \<open>findall\<close> all of them, from left to right.
\<close>

definition word_runs :: "string \<Rightarrow> string list" where
  "word_runs s = runs isword s"

text \<open>\<open>PART_REGEX = \b(PS|AP|WP|WR|WD|DA|W10|W11|242|530)\d{6,}\b\<close>, ignoring case.\<close>

definition part_prefixes :: "string list" where
  "part_prefixes = [''PS'', ''AP'', ''WP'', ''WR'', ''WD'', ''DA'', ''W10'', ''W11'', ''242'', ''530'']"

definition part_shape :: "string \<Rightarrow> bool" where
  "part_shape w =
     (\<exists>p \<in> set part_prefixes.
        length p \<le> length w \<and> upper (take (length p) w) = p \<and>
        6 \<le> length (drop (length p) w) \<and> list_all isdigit (drop (length p) w))"

text \<open>\<open>MODEL_REGEX = \b(\w{3,}\d{3,}\w*)\b\<close>: three digits in a row, at offset three or later.\<close>

definition model_shape :: "string \<Rightarrow> bool" where
  "model_shape w =
     (\<exists>i \<in> set [3 ..< length w]. i + 3 \<le> length w \<and> list_all isdigit (take 3 (drop i w)))"

text \<open>
  \<open>extract_entities\<close>: the first part number, and the longest model-like token that is
  not that part number (the sort by length is stable), both upper-cased.
\<close>

definition extract_entities :: "string \<Rightarrow> string option \<times> string option" where
  "extract_entities query =
     (let part_match = find part_shape (word_runs query);
          potential_models =
            sort_key (\<lambda>w. - int (length w)) (filter model_shape (word_runs query));
          model_match =
            find (\<lambda>m. case part_match of None \<Rightarrow> True | Some pm \<Rightarrow> upper m \<noteq> upper pm)
              potential_models
      in (map_option upper part_match, map_option upper model_match))"

definition PART_KEYWORDS :: "string list" where
  "PART_KEYWORDS =
     [''rack'', ''basket'', ''wheel'', ''roller'', ''gasket'', ''seal'', ''pump'', ''motor'',
      ''hose'', ''tube'', ''inlet'', ''valve'', ''filter'', ''water'', ''drain'', ''panel'',
      ''handle'', ''latch'', ''door'', ''shelf'', ''bin'', ''drawer'', ''crisper'', ''light'',
      ''bulb'', ''heating'', ''element'', ''thermostat'', ''sensor'', ''board'', ''control'']"

text \<open>\<open>intent_classify\<close>: the type of the first rule that applies (the confidence is not used).\<close>

definition intent_classify :: "string \<Rightarrow> string" where
  "intent_classify query =
     (let q = lower query
      in if any_in [''compatible'', ''fit'', ''work with''] q then ''compatibility''
         else if any_in [''how to'', ''install'', ''replace'', ''remove''] q then ''installation''
         else if any_in [''leaking'', ''not cooling'', ''not draining'', ''loud noise'',
                         ''won'' @ [CHR 0x27] @ ''t start'', ''ice maker not working''] q
              then ''symptom''
         else if any_in [''find'', ''need'', ''buy'', ''part for'', ''looking for''] q \<or>
                 (\<exists>w \<in> set (split q). w \<in> set PART_KEYWORDS)
              then ''part_lookup''
         else ''general_help'')"

section \<open>Parts catalog (utils/catalog_class.py)\<close>

text \<open>
  A catalog entry is a JSON object. The record has the keys the code reads; a key that
  is missing or null is the empty string, \<open>None\<close> or the empty list, which is what the
  code's \<open>p.get(k, default)\<close> and \<open>_lc\<close> make of it.
\<close>

record item =
  partNumber :: string
  name :: string
  brand :: string
  appliance :: string
  category :: string
  description :: string
  officialURL :: string
  installGuide :: "string option"
  models :: "string list"
  brands :: "string list"

text \<open>\<open>PARTNUM_RE = \b[A-Z]{1,3}\d{4,8}[A-Z]?\b\<close>, ignoring case.\<close>

definition partnum_shape :: "string \<Rightarrow> bool" where
  "partnum_shape w =
     (let ls = takeWhile isletter w; r = dropWhile isletter w;
          ds = takeWhile isdigit r; t = dropWhile isdigit r
      in 1 \<le> length ls \<and> length ls \<le> 3 \<and> 4 \<le> length ds \<and> length ds \<le> 8 \<and>
         (t = [] \<or> (length t = 1 \<and> isletter (hd t))))"

definition partnum_search :: "string \<Rightarrow> string option" where
  "partnum_search s = find partnum_shape (word_runs s)"

definition BRANDS :: "string list" where
  "BRANDS = [''whirlpool'', ''maytag'', ''ge'', ''frigidaire'', ''samsung'', ''lg'', ''bosch'',
             ''kitchenaid'', ''amana'', ''kenmore'']"

definition CATEGORY_KEYS :: "(string \<times> string list) list" where
  "CATEGORY_KEYS =
     [(''rack'', [''rack'', ''dishrack'', ''upper'', ''lower'', ''basket'', ''silverware'', ''cutlery'',
                  ''adjuster'', ''roller'', ''track'', ''clip'', ''drawer'', ''tray'']),
      (''pump'', [''pump'', ''drain'', ''wash'', ''circulation'']),
      (''filter'', [''filter'']),
      (''hose'', [''hose'', ''inlet'', ''drain'', ''line'']),
      (''valve'', [''valve'', ''inlet'', ''water'']),
      (''door'', [''door'', ''gasket'', ''seal'', ''latch'', ''hinge'']),
      (''tray'', [''tray'', ''shelf'', ''bin'', ''drawer'', ''crisper'']),
      (''ice'', [''ice'', ''icemaker'', ''ice-maker'', ''auger'', ''bucket''])]"

text \<open>\<open>_lc\<close> and \<open>_tokens\<close> (\<open>re.findall(r"[a-z0-9\-]+", _lc(s))\<close>).\<close>

definition lc :: "string \<Rightarrow> string" where
  "lc s = lower (strip s)"

definition istok :: "char \<Rightarrow> bool" where
  "istok c =
     (let n = (of_char c :: nat) in (97 \<le> n \<and> n \<le> 122) \<or> (48 \<le> n \<and> n \<le> 57) \<or> n = 45)"

definition tokens :: "string \<Rightarrow> string list" where
  "tokens s = runs istok (lc s)"

definition capitalize :: "string \<Rightarrow> string" where
  "capitalize s = (case s of [] \<Rightarrow> [] | c # cs \<Rightarrow> upper_char c # lower cs)"

text \<open>
  \<open>_guess_brand\<close>: the first brand of \<open>BRANDS\<close> that occurs in the text. \<open>BRANDS\<close> is a
  Python set, whose iteration order is not fixed; the model takes the order of the
  literal.
\<close>

definition guess_brand :: "string \<Rightarrow> string option" where
  "guess_brand t = map_option capitalize (find (\<lambda>b. is_in b (lc t)) BRANDS)"

definition guess_appliance :: "string \<Rightarrow> string option \<Rightarrow> string option" where
  "guess_appliance t dflt =
     (let tl = lc t
      in if is_in ''dishwasher'' tl \<or> is_in ''dish washer'' tl then Some ''dishwasher''
         else if any_in [''refrigerator'', ''fridge'', ''freezer''] tl then Some ''refrigerator''
         else dflt)"

text \<open>\<open>_guess_category\<close>: the first category with the most keywords in the text, if any.\<close>

definition guess_category :: "string \<Rightarrow> string option" where
  "guess_category t =
     (let tl = lc t
      in fst (fold (\<lambda>(cat, keys) (best, hits).
                      let k = length (filter (\<lambda>kw. is_in kw tl) keys)
                      in if k > hits then (Some cat, k) else (best, hits))
                CATEGORY_KEYS (None, 0)))"

text \<open>The score of one entry in the scored search; Python's floats are exact rationals here.\<close>

definition score :: "string option \<Rightarrow> string option \<Rightarrow> string option \<Rightarrow> string list \<Rightarrow> item \<Rightarrow> rat" where
  "score brand' appl cat toks p =
     1 / 20
     + (if truthy brand' \<and> is_in (lc (the brand')) (lc (item.brand p)) then 2 else 0)
     + (if truthy appl \<and> is_in (the appl) (lc (appliance p)) then 5 / 2 else 0)
     + (if truthy cat \<and> is_in (the cat) (lc (category p)) then 2 else 0)
     + (\<Sum>t \<leftarrow> toks. (if is_in t (lc (name p)) then 6 / 10 else 0)
                   + (if is_in t (lc (description p)) then 3 / 10 else 0))
     + (if cat = Some ''rack'' \<and> is_in ''rack'' (lc (name p)) then 8 / 10 else 0)"

text \<open>The entry returned when nothing scores: four keys, the rest missing.\<close>

definition no_local_results :: "string \<Rightarrow> string \<Rightarrow> item" where
  "no_local_results query q =
     \<lparr>partNumber = ''N/A'',
      name = ''No local results for '' @ [CHR 0x27] @ query @ [CHR 0x27] @ ''.'',
      brand = [], appliance = [], category = [],
      description = ''Try the official catalog.'',
      officialURL = ''https://www.partselect.com/Search.aspx?SearchTerm=''
                    @ map (\<lambda>c. if c = CHR '' '' then CHR ''+'' else c) q,
      installGuide = None, models = [], brands = []\<rparr>"

text \<open>
  The scored part of \<open>Catalog.search\<close>: \<open>toks\<close> is a set, \<open>sort\<close> with \<open>reverse=True\<close> is
  stable and descending.
\<close>

definition scored_search :: "item list \<Rightarrow> string \<Rightarrow> string \<Rightarrow> item list" where
  "scored_search items query q =
     (let brand' = guess_brand q;
          appl = guess_appliance q None;
          cat = guess_category q;
          toks = remdups (tokens q);
          scored = filter (\<lambda>(s, p). s \<ge> 6 / 10) (map (\<lambda>p. (score brand' appl cat toks p, p)) items);
          results = take 5 (map snd (sort_key (\<lambda>(s, p). - s) scored))
      in if results = [] then [no_local_results query q] else results)"

text \<open>\<open>Catalog.search(query, part, model)\<close>; \<open>model\<close> is not used by the code.\<close>

definition search :: "item list \<Rightarrow> string \<Rightarrow> string option \<Rightarrow> item list" where
  "search items query part =
     (let q = strip (if truthy part then the part else query)
      in if q = [] then []
         else (case partnum_search q of
                 None \<Rightarrow> scored_search items query q
               | Some m \<Rightarrow>
                   (let pn = upper m;
                        exact = filter (\<lambda>p. lc (partNumber p) = lc pn) items
                    in if exact \<noteq> [] then take 5 exact else scored_search items query q)))"

text \<open>
  The order that the ranking property speaks of: scanning a result list from the front,
  the entry \<open>x\<close> is met before any occurrence of the entry \<open>y\<close>.
\<close>

fun ranks_before :: "'a \<Rightarrow> 'a \<Rightarrow> 'a list \<Rightarrow> bool" where
  "ranks_before x y [] = False"
| "ranks_before x y (r # rs) = (if r = y then False else if r = x then True else ranks_before x y rs)"

text \<open>\<open>" ".join(xs)\<close>.\<close>

fun join_sp :: "string list \<Rightarrow> string" where
  "join_sp [] = []"
| "join_sp [x] = x"
| "join_sp (x # y # ys) = x @ '' '' @ join_sp (y # ys)"

definition or_empty :: "string option \<Rightarrow> string" where
  "or_empty v = (if truthy v then the v else [])"

definition find_parts ::
  "item list \<Rightarrow> string option \<Rightarrow> string option \<Rightarrow> string option \<Rightarrow> string option \<Rightarrow> item list" where
  "find_parts items appliance_type brand' category' query =
     (let q = strip (join_sp (filter (\<lambda>x. x \<noteq> [])
                [or_empty query, or_empty brand', or_empty appliance_type, or_empty category']));
          res = search items (if q \<noteq> [] then q else or_empty category') None
      in if res \<noteq> [] \<and> partNumber (hd res) \<noteq> ''N/A'' then
           (let out = filter (\<lambda>p.
                        \<not> (truthy appliance_type \<and> \<not> is_in (lower (the appliance_type)) (lc (appliance p))) \<and>
                        \<not> (truthy brand' \<and> \<not> is_in (lc (the brand')) (lc (item.brand p))) \<and>
                        \<not> (truthy category' \<and> \<not> is_in (lc (the category')) (lc (category p)))) res
            in if out \<noteq> [] then out else res)
         else res)"

text \<open>\<open>install_guide(part)\<close>; the stored guide wins when the entry has a non-empty one.\<close>

definition generic_guide :: "string \<Rightarrow> bool \<Rightarrow> string" where
  "generic_guide part rack =
     ''General guide for '' @ part @ '':'' @ [CHR 10] @
     (if rack then
        ''1) Disconnect power'' @ [CHR 10]
          @ ''2) Remove rack; release clips/rollers/adjusters'' @ [CHR 10]
          @ ''3) Seat and align replacement; test slide''
      else
        ''1) Disconnect power/water'' @ [CHR 10]
          @ ''2) Remove the faulty component'' @ [CHR 10]
          @ ''3) Install replacement; restore and test'')"

definition install_guide :: "item list \<Rightarrow> string option \<Rightarrow> string" where
  "install_guide items part0 =
     (let part = upper (strip (or_empty part0))
      in if part = [] then
           ''Please provide a part number (e.g., '' @ [CHR 0x27] @ ''How to install WP2188656''
             @ [CHR 0x27] @ '').''
         else
           (case find (\<lambda>p. lc (partNumber p) = lc part) items of
              Some hit \<Rightarrow>
                (if truthy (installGuide hit) then the (installGuide hit)
                 else generic_guide part (is_in ''rack'' (lc (category hit))))
            | None \<Rightarrow> generic_guide part False))"

text \<open>
  \<open>is_compatible(part, model)\<close>. The messages hold characters outside the model's range,
  so a message is its template and the values put into it.
\<close>

datatype compat_message =
    NeedBoth
  | Fits string string
  | NotConfirmed string "string list" string
  | NotFound string string

definition is_compatible :: "item list \<Rightarrow> string option \<Rightarrow> string option \<Rightarrow> bool \<times> compat_message" where
  "is_compatible items part0 model0 =
     (let part = upper (strip (or_empty part0));
          model = upper (strip (or_empty model0))
      in if part = [] \<or> model = [] then (False, NeedBoth)
         else
           (let url = ''https://www.partselect.com/ModelSearch.aspx?SearchTerm='' @ model @ ''+'' @ part
            in case find (\<lambda>p. lc (partNumber p) = lc part) items of
                 Some hit \<Rightarrow>
                   (if model \<in> set (map upper (models hit)) then (True, Fits part model)
                    else (False, NotConfirmed model (brands hit) url))
               | None \<Rightarrow> (False, NotFound part url)))"

section \<open>Document retrieval (utils/rag_service.py)\<close>

definition weights :: "(string \<times> rat) list" where
  "weights =
     [(''dishwasher'', 3), (''refrigerator'', 3),
      (''rack'', 18 / 10), (''filter'', 18 / 10), (''drawer'', 18 / 10), (''bin'', 18 / 10),
      (''ice maker'', 2), (''pump'', 15 / 10), (''hose'', 12 / 10), (''basket'', 12 / 10),
      (''whirlpool'', 25 / 10), (''kenmore'', 25 / 10), (''maytag'', 25 / 10), (''lg'', 25 / 10)]"

text \<open>
  The table after \<open>if appliance_context in weights: weights[appliance_context] = 5.0\<close>,
  and \<open>weights.get(term, 1.0)\<close> on it.
\<close>

definition context_weights :: "string \<Rightarrow> string \<rightharpoonup> rat" where
  "context_weights appliance_context =
     (if appliance_context \<in> dom (map_of weights)
      then (map_of weights)(appliance_context \<mapsto> 5)
      else map_of weights)"

definition term_weight :: "string \<Rightarrow> string \<Rightarrow> rat" where
  "term_weight appliance_context term =
     (case context_weights appliance_context term of None \<Rightarrow> 1 | Some w \<Rightarrow> w)"

definition query_terms :: "string \<Rightarrow> string \<Rightarrow> string list" where
  "query_terms query appliance_context = split (lower query) @ [appliance_context]"

definition doc_score :: "string \<Rightarrow> string \<Rightarrow> string \<Rightarrow> rat" where
  "doc_score query appliance_context doc =
     (\<Sum>term \<leftarrow> query_terms query appliance_context.
        of_nat (count (lower doc) term) * term_weight appliance_context term)"

text \<open>
  \<open>_fallback_similarity\<close>: the Jaccard similarity of the two word sets, kept when it is
  above 0.05, in descending order.
\<close>

definition jaccard :: "string \<Rightarrow> string \<Rightarrow> rat" where
  "jaccard query doc =
     (let qs = remdups (split (lower query));
          ds = remdups (split (lower doc));
          inter = length (filter (\<lambda>w. w \<in> set ds) qs);
          union = length (remdups (qs @ ds))
      in if union \<noteq> 0 then of_nat inter / of_nat union else 0)"

definition fallback_similarity :: "string list \<Rightarrow> string \<Rightarrow> (string \<times> rat) list" where
  "fallback_similarity docs query =
     sort_key (\<lambda>(d, s). - s)
       (filter (\<lambda>(d, s). s > 5 / 100) (map (\<lambda>d. (d, jaccard query d)) docs))"

text \<open>\<open>xs[:k]\<close> for an integer \<open>k\<close>: a negative \<open>k\<close> drops from the end.\<close>

definition slice_to :: "int \<Rightarrow> 'a list \<Rightarrow> 'a list" where
  "slice_to k xs = (if 0 \<le> k then take (nat k) xs else take (length xs - nat (- k)) xs)"

definition no_documents :: string where
  "no_documents = ''(Internal Error: No RAG documents loaded.)''"

text \<open>\<open>RAGService.search(query, appliance_context, k)\<close> on the loaded documents.\<close>

definition rag_search :: "string list \<Rightarrow> string \<Rightarrow> string \<Rightarrow> int \<Rightarrow> string list" where
  "rag_search docs query appliance_context k =
     (if docs = [] then [no_documents]
      else
        (let scores =
               sort_key (\<lambda>(d, s). - s)
                 (filter (\<lambda>(d, s). s > 0)
                    (map (\<lambda>d. (d, doc_score query appliance_context d)) docs));
             scores' = (if scores = [] then fallback_similarity docs query else scores)
         in map fst (slice_to k scores')))"

definition classify_intent :: "string \<Rightarrow> string" where
  "classify_intent query =
     (let q = lower query
      in if any_in [''compatible'', ''fit'', ''works with''] q then ''compatibility''
         else if any_in [''how to'', ''replace'', ''install'', ''fix'', ''repair'', ''broken''] q
              then ''repair_guide''
         else if any_in [''rack'', ''filter'', ''pump'', ''hose'', ''basket'', ''drawer'', ''bin'',
                         ''ice maker''] q
              then ''part_lookup''
         else if any_in [''clean'', ''maintain'', ''how often'', ''smell''] q then ''maintenance''
         else ''general_help'')"

text \<open>
  \<open>build_prompt\<close> fills one fixed template; the prompt is the values it puts in: the
  intent, the history lines, the context (the first three documents, or a placeholder
  when there is none), the query and the appliance.
\<close>

record prompt =
  p_intent :: string
  p_history :: "(string \<times> string) list"
  p_context :: string
  p_query :: string
  p_appliance :: string

fun join_blank :: "string list \<Rightarrow> string" where
  "join_blank [] = []"
| "join_blank [x] = x"
| "join_blank (x # y # ys) = x @ [CHR 10, CHR 10] @ join_blank (y # ys)"

definition build_prompt ::
  "string \<Rightarrow> string list \<Rightarrow> (string \<times> string) list \<Rightarrow> string \<Rightarrow> prompt" where
  "build_prompt user_query retrieved_docs chat_history appliance_context =
     \<lparr>p_intent = classify_intent user_query,
      p_history = chat_history,
      p_context = (if retrieved_docs \<noteq> [] then join_blank (take 3 retrieved_docs)
                   else ''(No context found)''),
      p_query = user_query,
      p_appliance = appliance_context\<rparr>"

section \<open>The chat turn (app.py)\<close>

record ChatIn =
  inp_message :: string
  inp_part :: "string option"
  inp_model :: "string option"
  inp_appliance :: string

text \<open>
  The response texts hold characters outside the model's range, so a response is the
  template the branch fills and the values it puts in.
\<close>

datatype response =
    AckRefuse string
  | SwitchSuggestion string
  | PartsFound "string option" "string option" string "string option" "item list"
  | PartsNotFound "string option" "string option" string "string option" "string option"
  | Guide string
  | Compatibility compat_message
  | Reply string

record ChatOut =
  response :: response
  intent :: string
  memory :: session

text \<open>
  The process state a turn reads and writes: the \<open>Memory\<close> store and \<open>chat_memory\<close>
  (role and content of each message, per session).
\<close>

record state =
  store :: store
  chat_memory :: "string \<rightharpoonup> (string \<times> string) list"

text \<open>The collaborators a turn calls, in call order.\<close>

datatype event = FindParts | InstallGuide | IsCompatible | RagSearch | LLMAnswer

datatype exn = Exception

definition never_empty :: "string \<Rightarrow> string" where
  "never_empty text =
     (if text = [] then ''(LLM returned no content.)''
      else (let t = strip text
            in if t = [] \<or> lower t \<in> {''none'', ''null'', ''nan''}
               then ''(LLM returned no content.)'' else t))"

definition other_appliance_hint :: "string \<Rightarrow> string \<Rightarrow> string option" where
  "other_appliance_hint q current =
     (let s = lower q
      in if any_in [''fridge'', ''refrigerator'', ''freezer''] s then
           (if current \<noteq> ''refrigerator'' then Some ''refrigerator'' else None)
         else if any_in [''dishwasher'', ''dish washer''] s then
           (if current \<noteq> ''dishwasher'' then Some ''dishwasher'' else None)
         else None)"

definition part_search_keywords :: "string list" where
  "part_search_keywords =
     [''show me'', ''find'', ''replacement'', ''rack'', ''pump'', ''valve'', ''filter'',
      ''tray'', ''basket'', ''drawer'', ''bin'', ''door'', ''crisper'', ''shelf'', ''track'',
      ''roller'', ''adjuster'']"

definition category_keywords :: "string list" where
  "category_keywords =
     [''rack'', ''pump'', ''filter'', ''hose'', ''tray'', ''door'', ''handle'',
      ''drawer'', ''basket'', ''bin'', ''valve'', ''crisper'', ''shelf'', ''track'', ''roller'',
      ''adjuster'']"

text \<open>
  \<open>re.search(r"\b(whirlpool|...|kenmore)\b", q, re.I)\<close>: the first word of \<open>q\<close> that is
  a brand name, as written in \<open>q\<close>.
\<close>

definition brand_match :: "string \<Rightarrow> string option" where
  "brand_match q = find (\<lambda>w. lower w \<in> set BRANDS) (word_runs q)"

text \<open>The locals \<open>q\<close> and \<open>cur_appliance\<close> of \<open>chat\<close>.\<close>

definition chat_q :: "ChatIn \<Rightarrow> string" where
  "chat_q inp = strip (inp_message inp)"

definition cur_appliance :: "ChatIn \<Rightarrow> string" where
  "cur_appliance inp = lower (if inp_appliance inp \<noteq> [] then inp_appliance inp else ''dishwasher'')"

text \<open>
  The history of the session after the user's message is appended: the list the prompt
  is built from, and the list \<open>chat_memory\<close> keeps (cut to the last eight).
\<close>

definition session_chat_history :: "state \<Rightarrow> string \<Rightarrow> string \<Rightarrow> (string \<times> string) list" where
  "session_chat_history st sid q =
     (case chat_memory st sid of None \<Rightarrow> [] | Some h \<Rightarrow> h) @ [(''user'', q)]"

definition trimmed :: "(string \<times> string) list \<Rightarrow> (string \<times> string) list" where
  "trimmed h = (if length h > 8 then drop (length h - 8) h else h)"

text \<open>
  Steps 7 to 9 of \<open>chat\<close>: installation, compatibility, and the fallback to retrieval and
  the language model (\<open>llm\<close> is \<open>None\<close> when the service did not start).
\<close>

definition handlers ::
  "item list \<Rightarrow> string list \<Rightarrow> (prompt \<Rightarrow> string) option \<Rightarrow> store \<Rightarrow>
   (string \<rightharpoonup> (string \<times> string) list) \<Rightarrow> (string \<times> string) list \<Rightarrow> session \<Rightarrow>
   string \<Rightarrow> string \<Rightarrow> string \<Rightarrow> string option \<Rightarrow> string option \<Rightarrow> string \<Rightarrow>
   ChatOut \<times> state \<times> event list" where
  "handlers items docs llm m cm hist mem sid q cur ent_part ent_model itype =
     (if itype = ''installation'' then
        (let guide = install_guide items ent_part;
             m' = update m sid [(''last_part'', ent_part), (''last_intent'', Some ''installation'')]
         in (\<lparr>response = Guide guide, intent = ''installation'', memory = snd (get m' sid)\<rparr>,
             \<lparr>store = fst (get m' sid), chat_memory = cm\<rparr>, [InstallGuide]))
      else
        (let part_num = py_or ent_part (dict_get mem ''last_part'');
             model_hint = py_or ent_model (dict_get mem ''last_model'')
         in if itype = ''compatibility'' \<and> truthy part_num \<and> truthy model_hint then
              (let m' = update m sid [(''last_part'', part_num), (''last_model'', model_hint),
                                      (''last_intent'', Some ''compatibility'')]
               in (\<lparr>response = Compatibility (snd (is_compatible items part_num model_hint)),
                    intent = ''compatibility'', memory = snd (get m' sid)\<rparr>,
                   \<lparr>store = fst (get m' sid), chat_memory = cm\<rparr>, [IsCompatible]))
            else
              (let found = rag_search docs q cur 6;
                   p = build_prompt q found hist cur;
                   reply = (case llm of Some answer \<Rightarrow> never_empty (answer p)
                            | None \<Rightarrow> ''LLM unavailable.'');
                   cm' = cm(sid \<mapsto> (case cm sid of None \<Rightarrow> [] | Some h \<Rightarrow> h) @ [(''assistant'', reply)]);
                   m' = update m sid [(''last_intent'', Some itype)]
               in (\<lparr>response = Reply reply, intent = itype, memory = snd (get m' sid)\<rparr>,
                   \<lparr>store = fst (get m' sid), chat_memory = cm'\<rparr>,
                   (case llm of Some answer \<Rightarrow> [RagSearch, LLMAnswer] | None \<Rightarrow> [RagSearch])))))"

text \<open>
  \<open>chat\<close>. The call \<open>catalog.catalog.find_parts(...)\<close> stands in the only \<open>try\<close> block:
  \<open>fp\<close> is that call, \<open>Inl\<close> when it raises. The scope check only logs and is left out;
  \<open>ent.setdefault\<close> never changes \<open>ent\<close>, whose two keys are always set.
\<close>

definition chat ::
  "(string option \<Rightarrow> string option \<Rightarrow> string option \<Rightarrow> string option \<Rightarrow> exn + item list) \<Rightarrow>
   item list \<Rightarrow> string list \<Rightarrow> (prompt \<Rightarrow> string) option \<Rightarrow>
   state \<Rightarrow> ChatIn \<Rightarrow> string \<Rightarrow> ChatOut \<times> state \<times> event list" where
  "chat fp items docs llm st inp sid =
     (let q = chat_q inp;
          cur = cur_appliance inp;
          hist = session_chat_history st sid q;
          cm = (chat_memory st)(sid \<mapsto> trimmed hist)
      in if is_in ''user refused switch'' (lower q) then
           (let m' = update (store st) sid [(''last_switch_refused_for'', Some cur)]
            in (\<lparr>response = AckRefuse cur, intent = ''ack_refuse'', memory = snd (get m' sid)\<rparr>,
                \<lparr>store = fst (get m' sid), chat_memory = cm\<rparr>, []))
         else
           (let m = fst (get (store st) sid);
                mem = snd (get (store st) sid);
                alt_appliance = other_appliance_hint q cur;
                refused_for = dict_get mem ''last_switch_refused_for''
            in if truthy alt_appliance \<and> refused_for \<noteq> alt_appliance then
                 (\<lparr>response = SwitchSuggestion (the alt_appliance), intent = ''switch_suggestion'',
                   memory = mem\<rparr>,
                  \<lparr>store = m, chat_memory = cm\<rparr>, [])
               else
                 (let ent = extract_entities q;
                      ent_part = py_or (fst ent) (dict_get mem ''last_part'');
                      ent_model = py_or (snd ent) (dict_get mem ''last_model'');
                      itype = intent_classify q
                  in if any_in part_search_keywords (lower q) then
                       (let brand' = brand_match q;
                            category' = find (\<lambda>w. is_in w (lower q)) category_keywords;
                            other = other_appliance_hint q cur;
                            stay = (truthy other \<and> refused_for = other);
                            appliance_hint = (if stay then the other else cur);
                            switch_note = (if stay then other else None)
                        in case fp (Some appliance_hint) brand' category' (Some q) of
                             Inr results \<Rightarrow>
                               (if results \<noteq> [] \<and> partNumber (hd results) \<noteq> ''N/A'' then
                                  (\<lparr>response = PartsFound category' brand' appliance_hint switch_note
                                                 (take 5 results),
                                    intent = ''part_search'', memory = snd (get m sid)\<rparr>,
                                   \<lparr>store = fst (get m sid), chat_memory = cm\<rparr>, [FindParts])
                                else
                                  (\<lparr>response = PartsNotFound category' brand' cur switch_note
                                                 (if results \<noteq> [] \<and> officialURL (hd results) \<noteq> []
                                                  then Some (officialURL (hd results)) else None),
                                    intent = ''part_search'', memory = snd (get m sid)\<rparr>,
                                   \<lparr>store = fst (get m sid), chat_memory = cm\<rparr>, [FindParts]))
                           | Inl e \<Rightarrow>
                               (case handlers items docs llm m cm hist mem sid q cur ent_part ent_model
                                       ''part_search'' of
                                  (out, st', evs) \<Rightarrow> (out, st', FindParts # evs)))
                     else handlers items docs llm m cm hist mem sid q cur ent_part ent_model itype)))"

text \<open>The call on a catalog whose entries are well-formed: it returns, it never raises.\<close>

definition catalog_find_parts ::
  "item list \<Rightarrow> string option \<Rightarrow> string option \<Rightarrow> string option \<Rightarrow> string option \<Rightarrow> exn + item list" where
  "catalog_find_parts items appliance_type brand' category' query =
     Inr (find_parts items appliance_type brand' category' query)"

section \<open>Session memory: properties\<close>

lemma dom_new_session:
  "dom new_session = {''last_intent'', ''last_part'', ''last_model''}"
  by (auto simp: new_session_def split: if_splits)

lemma dom_set_field: "dom (set_field kv s) = dom s"
  by (auto simp: set_field_def)

lemma dom_fold_set_field: "dom (fold set_field kw s) = dom s"
  by (induction kw arbitrary: s) (simp_all add: dom_set_field)

lemma fold_set_field_apply:
  "fold set_field kw s k =
     (if k \<in> dom s then (case map_of (rev kw) k of Some v \<Rightarrow> Some v | None \<Rightarrow> s k) else None)"
proof (induction kw arbitrary: s)
  case Nil
  then show ?case by (auto simp: domIff)
next
  case (Cons kv kw)
  obtain a b where kv: "kv = (a, b)" by (cases kv)
  have "fold set_field (kv # kw) s k = fold set_field kw (set_field kv s) k" by simp
  also have "\<dots> = (if k \<in> dom (set_field kv s)
        then (case map_of (rev kw) k of Some v \<Rightarrow> Some v | None \<Rightarrow> set_field kv s k) else None)"
    by (rule Cons.IH)
  also have "\<dots> = (if k \<in> dom s
        then (case map_of (rev (kv # kw)) k of Some v \<Rightarrow> Some v | None \<Rightarrow> s k) else None)"
    by (auto simp: dom_set_field set_field_def kv map_add_def split: option.splits)
  finally show ?case .
qed

lemma fold_set_field_idem:
  "fold set_field kw (fold set_field kw s) = fold set_field kw s"
proof (rule ext)
  fix k
  show "fold set_field kw (fold set_field kw s) k = fold set_field kw s k"
    by (simp add: fold_set_field_apply dom_fold_set_field split: option.splits)
qed

lemma map_of_rev_distinct:
  "distinct (map fst kw) \<Longrightarrow> map_of (rev kw) = map_of kw"
  by (subst map_of_inject_set) (simp_all add: distinct_rev rev_map [symmetric])

lemma update_other: "other \<noteq> sid \<Longrightarrow> update st sid kw other = st other"
  by (simp add: update_def get_or_create_def split: option.splits)

lemma update_same:
  "update st sid kw sid = Some (fold set_field kw (snd (get st sid)))"
  by (simp add: update_def get_def get_or_create_def split: option.splits)

lemma get_after_update:
  "snd (get (update st sid kw) sid) = fold set_field kw (snd (get st sid))"
  by (simp add: update_def get_def get_or_create_def split: option.splits)

lemma update_idem: "update (update st sid kw) sid kw = update st sid kw"
proof (rule ext)
  fix x
  show "update (update st sid kw) sid kw x = update st sid kw x"
  proof (cases "x = sid")
    case True
    then show ?thesis
      by (simp add: update_same get_after_update fold_set_field_idem)
  next
    case False
    then show ?thesis by (simp add: update_other)
  qed
qed

text \<open>
  C3 (the code at a fresh store): \<open>get\<close> on a session id that was never updated returns a
  snapshot with exactly the three keys \<open>last_intent\<close>, \<open>last_part\<close> and \<open>last_model\<close>,
  each \<open>None\<close>; the key \<open>last_switch_refused_for\<close> is not in it.
\<close>

theorem get_fresh_has_three_fields:
  "snd (get Map.empty ''demo'') ''last_intent'' = Some None \<and>
   snd (get Map.empty ''demo'') ''last_part'' = Some None \<and>
   snd (get Map.empty ''demo'') ''last_model'' = Some None \<and>
   snd (get Map.empty ''demo'') ''last_switch_refused_for'' = None \<and>
   dom (snd (get Map.empty ''demo'')) = {''last_intent'', ''last_part'', ''last_model''}"
  by (simp add: get_def get_or_create_def dom_new_session) (simp add: new_session_def)

text \<open>
  What \<open>update\<close> does to the store, for every store, session id and keyword arguments
  (Python keyword arguments have distinct names). Every other session is left alone. In
  the session it names, whose record before the call is the stored one, or the dict
  literal of \<open>_get_or_create\<close> when nothing is stored: each name that the record holds
  takes the given value, each field that is not named keeps its stored value, a name
  that the record does not hold is skipped and no key is added. A second identical call
  leaves the store as the first one left it.
\<close>

lemma update_frame:
  assumes "distinct (map fst kwargs)"
  shows "(\<forall>other. other \<noteq> sid \<longrightarrow> update st sid kwargs other = st other) \<and>
         (\<exists>s'. update st sid kwargs sid = Some s' \<and>
               dom s' = dom (case st sid of None \<Rightarrow> new_session | Some s \<Rightarrow> s) \<and>
               (\<forall>k v. (k, v) \<in> set kwargs \<and>
                      k \<in> dom (case st sid of None \<Rightarrow> new_session | Some s \<Rightarrow> s) \<longrightarrow>
                      s' k = Some v) \<and>
               (\<forall>k. k \<notin> fst ` set kwargs \<longrightarrow>
                    s' k = (case st sid of None \<Rightarrow> new_session | Some s \<Rightarrow> s) k)) \<and>
         update (update st sid kwargs) sid kwargs = update st sid kwargs"
proof -
  let ?s0 = "case st sid of None \<Rightarrow> new_session | Some s \<Rightarrow> s"
  let ?s' = "fold set_field kwargs ?s0"
  have s0: "snd (get st sid) = ?s0"
    by (simp add: get_def get_or_create_def split: option.splits)
  have named: "?s' k = Some v" if "(k, v) \<in> set kwargs" "k \<in> dom ?s0" for k v
  proof -
    from assms that(1) have "map_of (rev kwargs) k = Some v"
      by (simp add: map_of_rev_distinct)
    with that(2) show ?thesis by (simp add: fold_set_field_apply)
  qed
  have unnamed: "?s' k = ?s0 k" if "k \<notin> fst ` set kwargs" for k
  proof -
    from that have "map_of (rev kwargs) k = None"
      by (simp add: map_of_eq_None_iff)
    then show ?thesis by (auto simp: fold_set_field_apply domIff)
  qed
  have "update st sid kwargs sid = Some ?s'"
    using update_same [of st sid kwargs] by (simp only: s0)
  moreover have "dom ?s' = dom ?s0" by (rule dom_fold_set_field)
  ultimately have "\<exists>s'. update st sid kwargs sid = Some s' \<and> dom s' = dom ?s0 \<and>
        (\<forall>k v. (k, v) \<in> set kwargs \<and> k \<in> dom ?s0 \<longrightarrow> s' k = Some v) \<and>
        (\<forall>k. k \<notin> fst ` set kwargs \<longrightarrow> s' k = ?s0 k)"
    using named unnamed by blast
  then show ?thesis
    using update_other [of _ sid st kwargs] update_idem [of st sid kwargs] by blast
qed

text \<open>
  C9 (the code at the router's own partial update): the specification's session has the
  four fields \<open>last_intent\<close>, \<open>last_part\<close>, \<open>last_model\<close> and \<open>last_switch_refused_for\<close>,
  and the router calls \<open>update(sid, last_switch_refused_for=cur_appliance)\<close>. The stored
  record has three keys, so \<open>update\<close> treats the fourth name as unknown and skips it.
  On a fresh store the call leaves the session at its defaults, and the read that
  follows finds no refusal. On a session that holds a part number, an update that names
  \<open>last_switch_refused_for\<close> and \<open>last_intent\<close> applies \<open>last_intent\<close>, keeps the stored
  part number, and drops the refusal; repeating the call changes nothing further.
\<close>

theorem update_drops_refused_switch:
  "(\<exists>s'. update Map.empty ''demo'' [(''last_switch_refused_for'', Some ''refrigerator'')] ''demo''
          = Some s' \<and>
         s' ''last_switch_refused_for'' = None \<and> s' ''last_intent'' = Some None \<and>
         s' ''last_part'' = Some None \<and> s' ''last_model'' = Some None) \<and>
   dict_get (snd (get (update Map.empty ''demo''
                         [(''last_switch_refused_for'', Some ''refrigerator'')]) ''demo''))
     ''last_switch_refused_for'' = None \<and>
   (\<exists>s'. update [''demo'' \<mapsto> new_session(''last_part'' \<mapsto> Some ''PS11752778'')] ''demo''
            [(''last_switch_refused_for'', Some ''refrigerator''),
             (''last_intent'', Some ''ack_refuse'')] ''demo'' = Some s' \<and>
         s' ''last_switch_refused_for'' = None \<and>
         s' ''last_intent'' = Some (Some ''ack_refuse'') \<and>
         s' ''last_part'' = Some (Some ''PS11752778'') \<and> s' ''last_model'' = Some None \<and>
         update (update [''demo'' \<mapsto> new_session(''last_part'' \<mapsto> Some ''PS11752778'')] ''demo''
                   [(''last_switch_refused_for'', Some ''refrigerator''),
                    (''last_intent'', Some ''ack_refuse'')])
            ''demo''
            [(''last_switch_refused_for'', Some ''refrigerator''),
             (''last_intent'', Some ''ack_refuse'')] ''demo'' = Some s')"
  by (simp add: update_def get_def get_or_create_def new_session_def set_field_def dict_get_def)

lemma strip_blank: "\<forall>c \<in> set s. isspace c \<Longrightarrow> strip s = []"
proof -
  assume a: "\<forall>c \<in> set s. isspace c"
  have e: "dropWhile isspace s = []" using a by simp
  show ?thesis unfolding strip_def e by simp
qed

section \<open>Catalog search: properties\<close>

text \<open>
  C10: with no \<open>part\<close> argument and a query that is empty or all whitespace,
  \<open>Catalog.search\<close> returns the empty list, not the "no local results" entry.
\<close>

theorem search_blank_query_empty:
  "\<forall>c \<in> set query. isspace c \<Longrightarrow>
   search items query None = [] \<and>
   search items query None \<noteq> [no_local_results query (strip query)]"
  by (simp add: search_def strip_blank truthy_def)

theorem search_blank_query_empty_witness:
  "search [\<lparr>partNumber = ''PS11752778'', name = ''Drain Pump'', brand = ''Whirlpool'',
            appliance = ''dishwasher'', category = ''pump'', description = [], officialURL = [],
            installGuide = None, models = [], brands = []\<rparr>] ''  '' None = []"
proof -
  have h: "\<forall>c \<in> set ''  ''. isspace c" by (simp add: isspace_def)
  from search_blank_query_empty [OF h] show ?thesis by (rule conjunct1)
qed

lemma weights_keys: "dom (map_of weights) = fst ` set weights"
  by (simp add: dom_map_of_conv_image_fst)

text \<open>
  C5, as the code has it: the weight of the appended appliance-context term is 5.0 when
  the context string is a key of the weight table, and the default 1.0 when it is not.
\<close>

theorem context_term_weight:
  "term_weight appliance_context appliance_context =
     (if appliance_context \<in> fst ` set weights then 5 else 1)"
proof (cases "appliance_context \<in> dom (map_of weights)")
  case True
  then show ?thesis by (simp add: term_weight_def context_weights_def weights_keys)
next
  case False
  then have "map_of weights appliance_context = None" by (simp add: domIff)
  with False show ?thesis by (simp add: term_weight_def context_weights_def weights_keys)
qed


text \<open>
  C5 as stated fails for a context that is not a key of the table, such as the default
  value \<open>"appliance"\<close> of the parameter: its weight is 1.0.
\<close>

theorem context_weight_counterexample: "term_weight ''appliance'' ''appliance'' \<noteq> 5"
  by code_simp

section \<open>Document retrieval: properties\<close>

lemma sort_key_Nil_iff: "sort_key f xs = [] \<longleftrightarrow> xs = []"
  by (metis length_0_conv length_sort)

lemma slice_to_nonempty: "1 \<le> k \<Longrightarrow> xs \<noteq> [] \<Longrightarrow> slice_to k xs \<noteq> []"
proof -
  assume k: "1 \<le> k" and xs: "xs \<noteq> []"
  then have "0 < nat k" by simp
  with xs show ?thesis using k by (simp add: slice_to_def)
qed


lemma rag_scores_Nil:
  "\<forall>d \<in> set docs. doc_score q c d \<le> 0 \<Longrightarrow>
   filter (\<lambda>(d, s). s > 0) (map (\<lambda>d. (d, doc_score q c d)) docs) = []"
  by (induction docs) auto

lemma fallback_Nil:
  "\<forall>d \<in> set docs. jaccard q d \<le> 5 / 100 \<Longrightarrow> fallback_similarity docs q = []"
  by (induction docs) (auto simp: fallback_similarity_def)

lemma rag_scores_nonempty:
  "d \<in> set docs \<Longrightarrow> doc_score q c d > 0 \<Longrightarrow>
   filter (\<lambda>(d, s). s > 0) (map (\<lambda>d. (d, doc_score q c d)) docs) \<noteq> []"
  by (induction docs) auto

lemma fallback_nonempty:
  "d \<in> set docs \<Longrightarrow> jaccard q d > 5 / 100 \<Longrightarrow> fallback_similarity docs q \<noteq> []"
  by (induction docs) (auto simp: fallback_similarity_def sort_key_Nil_iff)

text \<open>
  C4, as the code has it: on an empty corpus \<open>search\<close> returns the one-element sentinel;
  on a non-empty corpus where no document scores positively and none has Jaccard
  similarity above 0.05 it returns the empty list; and when some document scores
  positively or has similarity above 0.05 and \<open>k\<close> is at least 1, the result is not empty.
\<close>

theorem rag_search_may_be_empty:
  "rag_search [] q c k = [no_documents] \<and>
   (docs \<noteq> [] \<and> (\<forall>d \<in> set docs. doc_score q c d \<le> 0 \<and> jaccard q d \<le> 5 / 100)
      \<longrightarrow> rag_search docs q c k = []) \<and>
   (1 \<le> k \<and> (\<exists>d \<in> set docs. doc_score q c d > 0 \<or> jaccard q d > 5 / 100)
      \<longrightarrow> rag_search docs q c k \<noteq> [])"
proof (intro conjI impI)
  show "rag_search [] q c k = [no_documents]" by (simp add: rag_search_def)
next
  assume a: "docs \<noteq> [] \<and> (\<forall>d \<in> set docs. doc_score q c d \<le> 0 \<and> jaccard q d \<le> 5 / 100)"
  then have "filter (\<lambda>(d, s). s > 0) (map (\<lambda>d. (d, doc_score q c d)) docs) = []"
    and "fallback_similarity docs q = []"
    by (simp_all add: rag_scores_Nil fallback_Nil)
  with a show "rag_search docs q c k = []"
    by (simp add: rag_search_def slice_to_def)
next
  assume a: "1 \<le> k \<and> (\<exists>d \<in> set docs. doc_score q c d > 0 \<or> jaccard q d > 5 / 100)"
  then obtain d where d: "d \<in> set docs" "doc_score q c d > 0 \<or> jaccard q d > 5 / 100"
    by blast
  let ?sc = "sort_key (\<lambda>(d, s). - s)
               (filter (\<lambda>(d, s). s > 0) (map (\<lambda>d. (d, doc_score q c d)) docs))"
  let ?sc' = "if ?sc = [] then fallback_similarity docs q else ?sc"
  have ne: "?sc' \<noteq> []"
  proof (cases "?sc = []")
    case True
    then have "\<not> doc_score q c d > 0"
      using rag_scores_nonempty [OF d(1), of q c] by (auto simp: sort_key_Nil_iff)
    with d(2) have "jaccard q d > 5 / 100" by blast
    with d(1) have "fallback_similarity docs q \<noteq> []" by (rule fallback_nonempty)
    with True show ?thesis by simp
  next
    case False
    then show ?thesis by simp
  qed
  from d(1) have docs: "docs \<noteq> []" by auto
  from a ne have "slice_to k ?sc' \<noteq> []" by (simp add: slice_to_nonempty)
  with docs show "rag_search docs q c k \<noteq> []"
    by (simp add: rag_search_def Let_def)
qed

text \<open>
  C4 as stated fails: a non-empty corpus that shares nothing with the query and the
  context gives the empty list, not a sentinel.
\<close>

theorem rag_search_empty_counterexample:
  "rag_search [''alpha''] ''zzz'' ''dishwasher'' 6 = []"
  by code_simp

theorem rag_search_may_be_empty_witness:
  "rag_search [''alpha''] ''zzz'' ''dishwasher'' 6 = [] \<and>
   rag_search [''rack guide''] ''rack'' ''dishwasher'' 6 \<noteq> []"
proof -
  have h1: "[''alpha''] \<noteq> [] \<and>
        (\<forall>d \<in> set [''alpha'']. doc_score ''zzz'' ''dishwasher'' d \<le> 0 \<and> jaccard ''zzz'' d \<le> 5 / 100)"
    by code_simp
  have h2: "(1::int) \<le> 6 \<and>
        (\<exists>d \<in> set [''rack guide'']. doc_score ''rack'' ''dishwasher'' d > 0 \<or> jaccard ''rack'' d > 5 / 100)"
    by code_simp
  from rag_search_may_be_empty [of "''zzz''" "''dishwasher''" 6 "[''alpha'']"] h1
  have 1: "rag_search [''alpha''] ''zzz'' ''dishwasher'' 6 = []" by blast
  from rag_search_may_be_empty [of "''rack''" "''dishwasher''" 6 "[''rack guide'']"] h2
  have 2: "rag_search [''rack guide''] ''rack'' ''dishwasher'' 6 \<noteq> []" by blast
  from 1 2 show ?thesis by blast
qed

section \<open>The chat turn: properties\<close>

text \<open>
  C1 (the code at a refusal turn): the turn returns the acknowledgement with no
  retrieval and no call of the language model, but \<open>last_switch_refused_for\<close> is not
  stored: \<open>update\<close> skips the key, which the session's dict does not hold.
\<close>

theorem refusal_is_not_recorded:
  "(let r = chat fp items docs llm \<lparr>store = Map.empty, chat_memory = Map.empty\<rparr>
              \<lparr>inp_message = ''user refused switch'', inp_part = None, inp_model = None,
               inp_appliance = ''refrigerator''\<rparr> ''demo''
    in response (fst r) = AckRefuse ''refrigerator'' \<and> intent (fst r) = ''ack_refuse'' \<and>
       snd (snd r) = [] \<and>
       dict_get (memory (fst r)) ''last_switch_refused_for'' = None \<and>
       memory (fst r) ''last_switch_refused_for'' = None \<and>
       (case store (fst (snd r)) ''demo'' of
          None \<Rightarrow> False
        | Some s \<Rightarrow> s ''last_switch_refused_for'' = None))"
  by code_simp

text \<open>
  C2 (the code after a refusal): a refusal turn under the context refrigerator, then a
  message under the context dishwasher that names the refrigerator. The second turn
  returns the switch suggestion again.
\<close>

theorem suggestion_repeats_after_refusal:
  "(let r1 = chat fp items docs llm \<lparr>store = Map.empty, chat_memory = Map.empty\<rparr>
               \<lparr>inp_message = ''user refused switch'', inp_part = None, inp_model = None,
                inp_appliance = ''refrigerator''\<rparr> ''demo'';
        r2 = chat fp items docs llm (fst (snd r1))
               \<lparr>inp_message = ''I need a refrigerator filter'', inp_part = None, inp_model = None,
                inp_appliance = ''dishwasher''\<rparr> ''demo''
    in intent (fst r1) = ''ack_refuse'' \<and>
       response (fst r2) = SwitchSuggestion ''refrigerator'' \<and>
       intent (fst r2) = ''switch_suggestion'' \<and> snd (snd r2) = [])"
  by code_simp

text \<open>
  C6: a turn that reaches the part-search step (no refusal marker, no switch suggestion),
  whose message holds a part-search keyword and whose \<open>find_parts\<close> call returns rather
  than raises, ends with intent \<open>part_search\<close>; the only collaborator called is
  \<open>find_parts\<close>, so neither \<open>install_guide\<close> nor \<open>is_compatible\<close> runs, whatever
  intent the classifier gave the message.
\<close>

theorem part_search_precedes_handlers:
  assumes "\<not> is_in ''user refused switch'' (lower (chat_q inp))"
    and "\<not> (truthy (other_appliance_hint (chat_q inp) (cur_appliance inp)) \<and>
            dict_get (snd (get (store st) sid)) ''last_switch_refused_for''
              \<noteq> other_appliance_hint (chat_q inp) (cur_appliance inp))"
    and "any_in part_search_keywords (lower (chat_q inp))"
    and "fp (Some (if truthy (other_appliance_hint (chat_q inp) (cur_appliance inp)) \<and>
                      dict_get (snd (get (store st) sid)) ''last_switch_refused_for''
                        = other_appliance_hint (chat_q inp) (cur_appliance inp)
                   then the (other_appliance_hint (chat_q inp) (cur_appliance inp))
                   else cur_appliance inp))
            (brand_match (chat_q inp))
            (find (\<lambda>w. is_in w (lower (chat_q inp))) category_keywords)
            (Some (chat_q inp)) = Inr results"
  shows "intent (fst (chat fp items docs llm st inp sid)) = ''part_search'' \<and>
         snd (snd (chat fp items docs llm st inp sid)) = [FindParts] \<and>
         InstallGuide \<notin> set (snd (snd (chat fp items docs llm st inp sid))) \<and>
         IsCompatible \<notin> set (snd (snd (chat fp items docs llm st inp sid)))"
  using assms by (simp add: chat_def Let_def)

theorem part_search_precedes_handlers_witness:
  "intent_classify ''how to install rack'' = ''installation'' \<and>
   intent (fst (chat (catalog_find_parts []) [] [] None \<lparr>store = Map.empty, chat_memory = Map.empty\<rparr>
     \<lparr>inp_message = ''how to install rack'', inp_part = None, inp_model = None,
      inp_appliance = ''dishwasher''\<rparr> ''demo'')) = ''part_search'' \<and>
   snd (snd (chat (catalog_find_parts []) [] [] None \<lparr>store = Map.empty, chat_memory = Map.empty\<rparr>
     \<lparr>inp_message = ''how to install rack'', inp_part = None, inp_model = None,
      inp_appliance = ''dishwasher''\<rparr> ''demo'')) = [FindParts]"
proof -
  let ?inp = "\<lparr>inp_message = ''how to install rack'', inp_part = None, inp_model = None,
      inp_appliance = ''dishwasher''\<rparr>"
  let ?st = "\<lparr>store = Map.empty, chat_memory = Map.empty\<rparr>"
  have 0: "intent_classify ''how to install rack'' = ''installation''" by code_simp
  have 1: "\<not> is_in ''user refused switch'' (lower (chat_q ?inp))" by code_simp
  have 2: "\<not> (truthy (other_appliance_hint (chat_q ?inp) (cur_appliance ?inp)) \<and>
            dict_get (snd (get (store ?st) ''demo'')) ''last_switch_refused_for''
              \<noteq> other_appliance_hint (chat_q ?inp) (cur_appliance ?inp))" by code_simp
  have 3: "any_in part_search_keywords (lower (chat_q ?inp))" by code_simp
  have 4: "catalog_find_parts [] (Some (if truthy (other_appliance_hint (chat_q ?inp) (cur_appliance ?inp)) \<and>
                      dict_get (snd (get (store ?st) ''demo'')) ''last_switch_refused_for''
                        = other_appliance_hint (chat_q ?inp) (cur_appliance ?inp)
                   then the (other_appliance_hint (chat_q ?inp) (cur_appliance ?inp))
                   else cur_appliance ?inp))
            (brand_match (chat_q ?inp))
            (find (\<lambda>w. is_in w (lower (chat_q ?inp))) category_keywords)
            (Some (chat_q ?inp)) =
         Inr (find_parts [] (Some (if truthy (other_appliance_hint (chat_q ?inp) (cur_appliance ?inp)) \<and>
                      dict_get (snd (get (store ?st) ''demo'')) ''last_switch_refused_for''
                        = other_appliance_hint (chat_q ?inp) (cur_appliance ?inp)
                   then the (other_appliance_hint (chat_q ?inp) (cur_appliance ?inp))
                   else cur_appliance ?inp))
            (brand_match (chat_q ?inp))
            (find (\<lambda>w. is_in w (lower (chat_q ?inp))) category_keywords)
            (Some (chat_q ?inp)))"
    by (simp only: catalog_find_parts_def)
  note r = part_search_precedes_handlers
         [where fp = "catalog_find_parts []" and inp = ?inp and st = ?st and sid = "''demo''"
            and items = "[]" and docs = "[]" and llm = None, OF 1 2 3 4]
  show ?thesis
    by (intro conjI) (rule 0, rule conjunct1 [OF r], rule conjunct1 [OF conjunct2 [OF r]])
qed

lemma find_filter_hd: "filter P xs \<noteq> [] \<Longrightarrow> find P xs = Some (hd (filter P xs))"
  by (induction xs) auto

lemma hd_take5: "xs \<noteq> [] \<Longrightarrow> hd (take 5 xs) = hd xs"
  by (cases xs) simp_all

lemma partnum_search_nonempty: "partnum_search q = Some m \<Longrightarrow> q \<noteq> []"
  by (auto simp: partnum_search_def word_runs_def)

lemma search_exact:
  assumes "partnum_search (strip (if truthy part then the part else query)) = Some m"
    and "filter (\<lambda>p. lc (partNumber p) = lc (upper m)) items \<noteq> []"
  shows "search items query part = take 5 (filter (\<lambda>p. lc (partNumber p) = lc (upper m)) items)"
proof -
  define q where "q = strip (if truthy part then the part else query)"
  have 1: "partnum_search q = Some m" using assms(1) by (simp only: q_def)
  then have 2: "q \<noteq> []" by (rule partnum_search_nonempty)
  have "search items query part =
        (if q = [] then []
         else (case partnum_search q of
                 None \<Rightarrow> scored_search items query q
               | Some m \<Rightarrow>
                   (if filter (\<lambda>p. lc (partNumber p) = lc (upper m)) items \<noteq> []
                    then take 5 (filter (\<lambda>p. lc (partNumber p) = lc (upper m)) items)
                    else scored_search items query q)))"
    by (simp only: search_def Let_def q_def)
  also have "\<dots> = take 5 (filter (\<lambda>p. lc (partNumber p) = lc (upper m)) items)"
    by (simp only: 1 2 assms(2) if_False if_True option.case not_False_eq_True)
  finally show ?thesis .
qed

text \<open>
  C7, as the code has it: when the first part-number-shaped token of the stripped query
  (or of the \<open>part\<close> argument, when one is given) equals the \<open>partNumber\<close> of some
  entry, ignoring case and surrounding whitespace, \<open>search\<close> returns the first five
  entries in catalog order whose part number equals that token, and nothing else; the
  first of them is the first such entry of the catalog. No score is computed.
\<close>

theorem search_first_part_number_exact:
  assumes "partnum_search (strip (if truthy part then the part else query)) = Some m"
    and "e \<in> set items" and "lc (partNumber e) = lc (upper m)"
  shows "search items query part = take 5 (filter (\<lambda>p. lc (partNumber p) = lc (upper m)) items) \<and>
         search items query part \<noteq> [] \<and>
         (\<forall>p \<in> set (search items query part). p \<in> set items \<and> lc (partNumber p) = lc (upper m)) \<and>
         find (\<lambda>p. lc (partNumber p) = lc (upper m)) items = Some (hd (search items query part))"
proof -
  define exact where "exact = filter (\<lambda>p. lc (partNumber p) = lc (upper m)) items"
  have ne: "exact \<noteq> []"
    unfolding exact_def using assms(2,3) by (auto simp: filter_empty_conv)
  have eq: "search items query part = take 5 exact"
    unfolding exact_def using assms(1) ne [unfolded exact_def] by (rule search_exact)
  have a: "take 5 exact \<noteq> []" using ne by (cases exact) simp_all
  have b: "\<forall>p \<in> set (take 5 exact). p \<in> set items \<and> lc (partNumber p) = lc (upper m)"
  proof
    fix p assume "p \<in> set (take 5 exact)"
    then have "p \<in> set exact" by (rule in_set_takeD)
    then show "p \<in> set items \<and> lc (partNumber p) = lc (upper m)"
      unfolding exact_def by simp
  qed
  have c: "find (\<lambda>p. lc (partNumber p) = lc (upper m)) items = Some (hd (take 5 exact))"
  proof -
    have "find (\<lambda>p. lc (partNumber p) = lc (upper m)) items = Some (hd exact)"
      unfolding exact_def by (rule find_filter_hd [OF ne [unfolded exact_def]])
    then show ?thesis by (simp only: hd_take5 [OF ne])
  qed
  show ?thesis
    unfolding eq exact_def [symmetric] using a b c by (intro conjI) (rule refl, assumption+)
qed

theorem search_first_part_number_exact_witness:
  "search [\<lparr>partNumber = ''W10350375'', name = ''Upper Rack'', brand = ''Whirlpool'',
            appliance = ''dishwasher'', category = ''rack'', description = [], officialURL = [],
            installGuide = None, models = [], brands = []\<rparr>,
           \<lparr>partNumber = ''PS11752778'', name = ''Drain Pump'', brand = ''Whirlpool'',
            appliance = ''dishwasher'', category = ''pump'', description = [], officialURL = [],
            installGuide = None, models = [], brands = []\<rparr>] ''PS11752778'' None =
     [\<lparr>partNumber = ''PS11752778'', name = ''Drain Pump'', brand = ''Whirlpool'',
            appliance = ''dishwasher'', category = ''pump'', description = [], officialURL = [],
            installGuide = None, models = [], brands = []\<rparr>]"
proof -
  let ?e = "\<lparr>partNumber = ''PS11752778'', name = ''Drain Pump'', brand = ''Whirlpool'',
            appliance = ''dishwasher'', category = ''pump'', description = [], officialURL = [],
            installGuide = None, models = [], brands = []\<rparr>"
  let ?r = "\<lparr>partNumber = ''W10350375'', name = ''Upper Rack'', brand = ''Whirlpool'',
            appliance = ''dishwasher'', category = ''rack'', description = [], officialURL = [],
            installGuide = None, models = [], brands = []\<rparr>"
  have 1: "partnum_search (strip (if truthy None then the None else ''PS11752778'')) = Some ''PS11752778''"
    by code_simp
  have 2: "?e \<in> set [?r, ?e]" by simp
  have 3: "lc (partNumber ?e) = lc (upper ''PS11752778'')" by code_simp
  have 4: "take 5 (filter (\<lambda>p. lc (partNumber p) = lc (upper ''PS11752778'')) [?r, ?e]) = [?e]"
    by code_simp
  note r = search_first_part_number_exact [OF 1 2 3]
  show ?thesis by (rule trans [OF conjunct1 [OF r] 4])
qed

text \<open>
  C7 as stated fails when the matching token is not the first part-number-shaped token
  of the query: only the first one is looked up, and the entry is not returned.
\<close>

theorem search_later_part_number_counterexample:
  "partnum_shape ''PS11752778'' \<and>
   ''PS11752778'' \<in> set (word_runs ''AB1234 PS11752778'') \<and>
   map partNumber
     (search [\<lparr>partNumber = ''PS11752778'', name = ''Drain Pump'', brand = ''Whirlpool'',
               appliance = ''dishwasher'', category = ''pump'', description = [], officialURL = [],
               installGuide = None, models = [], brands = []\<rparr>] ''AB1234 PS11752778'' None)
     = [''N/A'']"
  by code_simp

section \<open>Ranking under an added brand token: properties\<close>

subsection \<open>Substrings and runs across a separator\<close>

text \<open>
  \<open>x in s\<close> is the sublist relation. A substring without the separator character lies on
  one side of it, and a substring that does not end in whitespace does not reach into
  trailing whitespace.
\<close>

lemma is_in_sublist: "is_in x s \<longleftrightarrow> sublist x s"
  by (induction s) (simp_all add: sublist_Cons_right)

lemma prefix_Cons_notin: "c \<notin> set x \<Longrightarrow> prefix x (c # v) \<Longrightarrow> x = []"
  by (cases x) auto

lemma sublist_sep:
  assumes "c \<notin> set x"
  shows "sublist x (u @ c # v) \<longleftrightarrow> sublist x u \<or> sublist x v"
proof
  assume "sublist x (u @ c # v)"
  then consider "sublist x u" | "sublist x (c # v)"
    | x1 x2 where "x = x1 @ x2" "suffix x1 u" "prefix x2 (c # v)"
    unfolding sublist_append by blast
  then show "sublist x u \<or> sublist x v"
  proof cases
    case 1
    then show ?thesis by simp
  next
    case 2
    then have "prefix x (c # v) \<or> sublist x v" by (simp add: sublist_Cons_right)
    then show ?thesis using prefix_Cons_notin [OF assms] by auto
  next
    case 3
    have "c \<notin> set x2" using assms 3(1) by simp
    then have "x2 = []" using 3(3) by (rule prefix_Cons_notin)
    then have "suffix x u" using 3 by simp
    then show ?thesis by simp
  qed
next
  assume "sublist x u \<or> sublist x v"
  then show "sublist x (u @ c # v)"
    unfolding sublist_append by (auto simp: sublist_Cons_right)
qed

lemma sublist_gap:
  assumes "x \<noteq> []" "set x \<inter> set w = {}" "w \<noteq> []"
  shows "sublist x (u @ w @ v) \<longleftrightarrow> sublist x u \<or> sublist x v"
  using assms
proof (induction w arbitrary: u)
  case Nil
  then show ?case by simp
next
  case (Cons c w)
  have c: "c \<notin> set x" using Cons.prems by auto
  show ?case
  proof (cases "w = []")
    case True
    then show ?thesis using sublist_sep [OF c] by simp
  next
    case False
    have "sublist x ([] @ w @ v) \<longleftrightarrow> sublist x [] \<or> sublist x v"
      using Cons.IH [of "[]"] Cons.prems False by auto
    then have "sublist x (w @ v) \<longleftrightarrow> sublist x v" using Cons.prems(1) by simp
    then show ?thesis using sublist_sep [OF c, of u "w @ v"] by simp
  qed
qed

lemma sublist_snoc:
  assumes "x \<noteq> []" "last x \<noteq> c"
  shows "sublist x (s @ [c]) \<longleftrightarrow> sublist x s"
proof
  assume "sublist x (s @ [c])"
  then consider "sublist x s" | "sublist x [c]"
    | x1 x2 where "x = x1 @ x2" "suffix x1 s" "prefix x2 [c]"
    unfolding sublist_append by blast
  then show "sublist x s"
  proof cases
    case 1
    then show ?thesis .
  next
    case 2
    then have "prefix x [c] \<or> sublist x []" by (simp add: sublist_Cons_right)
    then have "x = [c]" using assms(1) by (cases x) auto
    then show ?thesis using assms(2) by simp
  next
    case 3
    have "x2 = [] \<or> x2 = [c]" using 3(3) by (cases x2) auto
    then show ?thesis
    proof
      assume "x2 = []"
      then show ?thesis using 3 by simp
    next
      assume "x2 = [c]"
      then show ?thesis using 3(1) assms(2) by simp
    qed
  qed
next
  assume "sublist x s"
  then show "sublist x (s @ [c])" unfolding sublist_append by simp
qed

lemma sublist_trailing:
  assumes "x \<noteq> []" "last x \<notin> set w"
  shows "sublist x (s @ w) \<longleftrightarrow> sublist x s"
  using assms
proof (induction w rule: rev_induct)
  case Nil
  then show ?case by simp
next
  case (snoc c w)
  have "sublist x ((s @ w) @ [c]) \<longleftrightarrow> sublist x (s @ w)"
    using sublist_snoc [of x c "s @ w"] snoc.prems by auto
  then show ?case using snoc by simp
qed

text \<open>Runs of a character class do not cross a character outside the class.\<close>

lemma runs_hd_nonempty: "P c \<Longrightarrow> runs P (c # cs) \<noteq> []"
  by (cases cs) (auto split: list.splits)

lemma runs_Cons_skip: "\<not> P c \<Longrightarrow> runs P (c # cs) = runs P cs"
  by simp

lemma runs_Cons_stop: "P c \<Longrightarrow> \<not> P d \<Longrightarrow> runs P (c # d # ds) = [c] # runs P ds"
  by simp

lemma runs_Cons_go:
  assumes "P c" "P d"
  shows "runs P (c # d # ds) = (c # hd (runs P (d # ds))) # tl (runs P (d # ds))"
proof -
  obtain r rs where r: "runs P (d # ds) = r # rs"
    using runs_hd_nonempty [of P d ds] assms(2) by (cases "runs P (d # ds)") auto
  have "runs P (c # d # ds) = (case runs P (d # ds) of [] \<Rightarrow> [[c]] | r # rs \<Rightarrow> (c # r) # rs)"
    using assms by (subst runs.simps(2)) (simp del: runs.simps)
  then show ?thesis by (simp del: runs.simps add: r)
qed

lemma runs_sep: "\<not> P c \<Longrightarrow> runs P (a @ c # b) = runs P a @ runs P b"
proof (induction a)
  case Nil
  then show ?case by simp
next
  case (Cons x a)
  have IH: "runs P (a @ c # b) = runs P a @ runs P b" using Cons by simp
  show ?case
  proof (cases "P x")
    case False
    then show ?thesis using IH by (simp add: runs_Cons_skip del: runs.simps)
  next
    case True
    show ?thesis
    proof (cases a)
      case Nil
      then show ?thesis using True Cons.prems by simp
    next
      case (Cons d ds)
      show ?thesis
      proof (cases "P d")
        case False
        have "runs P (x # d # (ds @ c # b)) = [x] # runs P (ds @ c # b)"
          using True False by (rule runs_Cons_stop)
        moreover have "runs P (x # d # ds) = [x] # runs P ds"
          using True False by (rule runs_Cons_stop)
        moreover have "runs P (ds @ c # b) = runs P ds @ runs P b"
          using IH False unfolding Cons by (simp add: runs_Cons_skip del: runs.simps)
        ultimately show ?thesis unfolding Cons by (simp del: runs.simps)
      next
        case d: True
        have ne: "runs P (d # ds) \<noteq> []" using runs_hd_nonempty [of P d ds] d by simp
        have "runs P (x # d # (ds @ c # b))
              = (x # hd (runs P (d # (ds @ c # b)))) # tl (runs P (d # (ds @ c # b)))"
          using True d by (rule runs_Cons_go)
        moreover have "runs P (d # (ds @ c # b)) = runs P (d # ds) @ runs P b"
          using IH unfolding Cons by (simp del: runs.simps)
        moreover have "runs P (x # d # ds) = (x # hd (runs P (d # ds))) # tl (runs P (d # ds))"
          using True d by (rule runs_Cons_go)
        ultimately show ?thesis unfolding Cons using ne by (simp del: runs.simps)
      qed
    qed
  qed
qed

lemma runs_all: "t \<noteq> [] \<Longrightarrow> \<forall>c \<in> set t. P c \<Longrightarrow> runs P t = [t]"
proof (induction t)
  case Nil
  then show ?case by simp
next
  case (Cons c t)
  show ?case
  proof (cases t)
    case Nil
    then show ?thesis using Cons.prems by simp
  next
    case (Cons d ds)
    have "runs P (d # ds) = [d # ds]" using Cons.IH Cons.prems unfolding Cons by simp
    moreover have "runs P (c # d # ds) = (c # hd (runs P (d # ds))) # tl (runs P (d # ds))"
      using Cons.prems unfolding Cons by (intro runs_Cons_go) simp_all
    ultimately show ?thesis unfolding Cons by (simp del: runs.simps)
  qed
qed

lemma runs_gap:
  assumes "\<forall>c \<in> set w. \<not> P c" "w \<noteq> []"
  shows "runs P (a @ w @ b) = runs P a @ runs P b"
proof -
  obtain c w' where w: "w = c # w'" using assms(2) by (cases w) auto
  have "runs P (w' @ b) = runs P b" using assms(1) unfolding w
    by (induction w') (simp_all add: runs_Cons_skip del: runs.simps(2))
  then show ?thesis using runs_sep [of P c a "w' @ b"] assms(1) w by (simp del: runs.simps)
qed

lemma find_snoc:
  "\<not> P t \<Longrightarrow> find P (xs @ [t]) = find P xs"
  by (induction xs) auto

subsection \<open>Stripping and lower-casing a query with an appended token\<close>

lemma isspace_lower_char: "isspace c \<Longrightarrow> lower_char c = c"
  by (auto simp: isspace_def lower_char_def Let_def)

lemma lower_whitespace: "\<forall>c \<in> set ws. isspace c \<Longrightarrow> lower ws = ws"
  unfolding lower_def by (rule map_idI) (simp add: isspace_lower_char)

lemma strip_trailing:
  "\<exists>ws. (\<forall>c \<in> set ws. isspace c) \<and> dropWhile isspace q = strip q @ ws"
proof -
  let ?d = "dropWhile isspace q"
  have "rev (takeWhile isspace (rev ?d) @ dropWhile isspace (rev ?d)) = ?d" by simp
  then have "?d = strip q @ rev (takeWhile isspace (rev ?d))"
    unfolding strip_def by (simp only: rev_append)
  moreover have "\<forall>c \<in> set (rev (takeWhile isspace (rev ?d))). isspace c"
    by (auto dest: set_takeWhileD)
  ultimately show ?thesis by blast
qed

lemma strip_strip: "strip (strip q) = strip q"
proof -
  let ?d = "dropWhile isspace q"
  let ?e = "strip q"
  obtain ws where ws: "?d = ?e @ ws" using strip_trailing [of q] by blast
  have 1: "dropWhile isspace ?e = ?e"
  proof (cases "?e = []")
    case True
    then show ?thesis by simp
  next
    case False
    then have "hd ?e = hd ?d" using ws by (metis hd_append2)
    moreover have "?d \<noteq> []" using False ws by auto
    then have "\<not> isspace (hd ?d)" by (rule hd_dropWhile)
    ultimately have "\<not> isspace (hd ?e)" by simp
    then show ?thesis using False by (cases ?e) auto
  qed
  have "strip ?e = rev (dropWhile isspace (rev ?e))"
    unfolding strip_def [of ?e] 1 ..
  also have "rev ?e = dropWhile isspace (rev ?d)" unfolding strip_def by simp
  also have "rev (dropWhile isspace (dropWhile isspace (rev ?d))) = ?e"
    unfolding strip_def by simp
  finally show ?thesis .
qed

lemma lc_strip: "lc (strip q) = lc q"
  by (simp add: lc_def strip_strip)

lemma strip_append_token:
  assumes "\<exists>c \<in> set q. \<not> isspace c" "t \<noteq> []" "\<forall>c \<in> set t. \<not> isspace c"
  shows "strip (q @ s # t) = dropWhile isspace q @ s # t"
proof -
  have 1: "dropWhile isspace (q @ s # t) = dropWhile isspace q @ s # t"
    using assms(1) by auto
  obtain y ys where r: "rev t = y # ys" using assms(2) by (cases "rev t") auto
  have "y \<in> set t" using r by (metis list.set_intros(1) set_rev)
  then have y: "\<not> isspace y" using assms(3) by simp
  have "dropWhile isspace (rev (dropWhile isspace q @ s # t)) = rev (dropWhile isspace q @ s # t)"
    using y by (simp add: r)
  then show ?thesis unfolding strip_def 1 by (simp only: rev_rev_ident)
qed

lemma lc_append_token:
  assumes "lc q \<noteq> []" "t \<noteq> []" "\<forall>c \<in> set t. \<not> isspace c" "lower t = t"
  shows "\<exists>W. W \<noteq> [] \<and> (\<forall>c \<in> set W. isspace c) \<and> lc (q @ CHR '' '' # t) = lc q @ W @ t"
proof -
  have "strip q \<noteq> []" using assms(1) by (auto simp: lc_def lower_def)
  then have "\<exists>c \<in> set q. \<not> isspace c" using strip_blank [of q] by blast
  then have 1: "strip (q @ CHR '' '' # t) = dropWhile isspace q @ CHR '' '' # t"
    using assms(2,3) by (rule strip_append_token)
  obtain ws where ws: "\<forall>c \<in> set ws. isspace c" "dropWhile isspace q = strip q @ ws"
    using strip_trailing [of q] by blast
  have sp: "isspace (CHR '' '')" by (simp add: isspace_def)
  have "lc (q @ CHR '' '' # t) = lower (strip q @ ws @ CHR '' '' # t)"
    unfolding lc_def 1 ws(2) by simp
  also have "\<dots> = lower (strip q) @ lower ws @ lower_char (CHR '' '') # lower t"
    by (simp add: lower_def)
  also have "\<dots> = lc q @ (ws @ [CHR '' '']) @ t"
    using lower_whitespace [OF ws(1)] isspace_lower_char [OF sp] assms(4) by (simp add: lc_def)
  finally have "lc (q @ CHR '' '' # t) = lc q @ (ws @ [CHR '' '']) @ t" .
  moreover have "\<forall>c \<in> set (ws @ [CHR '' '']). isspace c" using ws(1) sp by simp
  ultimately show ?thesis by blast
qed

lemma in_gap:
  assumes "x \<noteq> []" "\<forall>c \<in> set x. \<not> isspace c" "W \<noteq> []" "\<forall>c \<in> set W. isspace c"
  shows "is_in x (A @ W @ t) \<longleftrightarrow> is_in x A \<or> is_in x t"
proof -
  have "set x \<inter> set W = {}" using assms(2,4) by auto
  then show ?thesis using sublist_gap [OF assms(1) _ assms(3)] by (simp add: is_in_sublist)
qed

subsection \<open>Order in a list sorted by descending score\<close>

lemma ranks_before_split:
  "ranks_before x y rs \<Longrightarrow> \<exists>us vs. rs = us @ x # vs \<and> y \<notin> set us \<and> x \<noteq> y"
proof (induction rs)
  case Nil
  then show ?case by simp
next
  case (Cons r rs)
  show ?case
  proof (cases "r = x")
    case True
    then have "r # rs = [] @ x # rs \<and> y \<notin> set [] \<and> x \<noteq> y"
      using Cons.prems by (auto split: if_splits)
    then show ?thesis by blast
  next
    case False
    then have "ranks_before x y rs" "r \<noteq> y" using Cons.prems by (auto split: if_splits)
    then obtain us vs where "rs = us @ x # vs" "y \<notin> set us" "x \<noteq> y" using Cons.IH by blast
    then have "r # rs = (r # us) @ x # vs \<and> y \<notin> set (r # us) \<and> x \<noteq> y"
      using \<open>r \<noteq> y\<close> by simp
    then show ?thesis by blast
  qed
qed

lemma ranks_before_append: "y \<notin> set us \<Longrightarrow> x \<noteq> y \<Longrightarrow> ranks_before x y (us @ x # vs)"
  by (induction us) auto

lemma sorted_desc_after:
  assumes "sorted (map (\<lambda>(s, p). - s) (L1 @ (s1, p1) # L2))" "(s2, p2) \<in> set L2"
  shows "(s2 :: rat) \<le> s1"
proof -
  have "\<forall>y \<in> set L2. (\<lambda>(s, p). - s) (s1, p1) \<le> (\<lambda>(s, p). - s) y"
    using assms(1) by (auto simp: sorted_append)
  then have "(\<lambda>(s, p). - s) (s1, p1) \<le> (\<lambda>(s, p). - s) (s2, p2)" using assms(2) by blast
  then show ?thesis by simp
qed

lemma map_snd_split:
  assumes "map snd L = us @ x # vs"
  shows "\<exists>L1 l L2. L = L1 @ l # L2 \<and> map snd L1 = us \<and> snd l = x \<and> map snd L2 = vs"
proof -
  from assms obtain L1 L' where 1: "L = L1 @ L'" "map snd L1 = us" "map snd L' = x # vs"
    by (auto simp: map_eq_append_conv)
  then obtain l L2 where "L' = l # L2" "snd l = x" "map snd L2 = vs"
    by (auto simp: map_eq_Cons_conv)
  with 1 show ?thesis by blast
qed

lemma sorted_desc_before:
  fixes f :: "'a \<Rightarrow> rat"
  assumes fst: "\<forall>l \<in> set L. fst l = f (snd l)"
    and srt: "sorted (map (\<lambda>(s, p). - s) L)"
    and M: "map snd L = us @ x # vs"
    and y: "y \<in> set vs"
  shows "f y \<le> f x"
proof -
  obtain L1 l L2 where L: "L = L1 @ l # L2" "snd l = x" "map snd L2 = vs"
    using map_snd_split [OF M] by blast
  have "l \<in> set L" unfolding L(1) by simp
  then have "fst l = f x" using fst L(2) by auto
  then have l: "l = (f x, x)" using L(2) by (cases l) simp
  obtain ly where ly: "ly \<in> set L2" "snd ly = y" using y L(3) by auto
  then have "ly \<in> set L" unfolding L(1) by simp
  then have "fst ly = f y" using fst ly(2) by auto
  then have "(f y, y) \<in> set L2" using ly by (cases ly) auto
  moreover have "sorted (map (\<lambda>(s, p). - s) (L1 @ (f x, x) # L2))" using srt unfolding L(1) l .
  ultimately show ?thesis by (rule sorted_desc_after [rotated])
qed

lemma ranked_before_score:
  fixes f :: "'a \<Rightarrow> rat"
  assumes fst: "\<forall>l \<in> set L. fst l = f (snd l)"
    and srt: "sorted (map (\<lambda>(s, p). - s) L)"
    and rb: "ranks_before a b (take n (map snd L))"
    and b: "b \<in> set (map snd L)"
  shows "f b \<le> f a"
proof -
  obtain us vs where R: "take n (map snd L) = us @ a # vs" "b \<notin> set us" "a \<noteq> b"
    using ranks_before_split [OF rb] by blast
  have "map snd L = take n (map snd L) @ drop n (map snd L)" by simp
  then have M: "map snd L = us @ a # (vs @ drop n (map snd L))" unfolding R(1) by simp
  have "b \<in> set (us @ a # (vs @ drop n (map snd L)))" using b M by simp
  then have "b \<in> set (vs @ drop n (map snd L))" using R(2,3) by auto
  with fst srt M show ?thesis by (rule sorted_desc_before)
qed

lemma score_ranked_before:
  fixes f :: "'a \<Rightarrow> rat"
  assumes fst: "\<forall>l \<in> set L. fst l = f (snd l)"
    and srt: "sorted (map (\<lambda>(s, p). - s) L)"
    and a: "a \<in> set (map snd L)"
    and ab: "a \<noteq> b"
    and lt: "b \<in> set (map snd L) \<Longrightarrow> f b < f a"
    and R: "R = take n (map snd L)"
  shows "ranks_before a b R \<or> (a \<notin> set R \<and> b \<notin> set R)"
proof -
  have pre: "a \<in> set us" if M: "map snd L = us @ b # vs" for us vs
  proof (rule ccontr)
    assume "a \<notin> set us"
    then have "a \<in> set vs" using a ab unfolding M by auto
    with fst srt M have "f a \<le> f b" by (rule sorted_desc_before)
    moreover have "b \<in> set (map snd L)" unfolding M by simp
    ultimately show False using lt by simp
  qed
  have preR: "a \<in> set us" if R': "R = us @ b # vs" for us vs
  proof -
    have "map snd L = R @ drop n (map snd L)" unfolding R by simp
    then have "map snd L = us @ b # (vs @ drop n (map snd L))" unfolding R' by simp
    then show ?thesis by (rule pre)
  qed
  show ?thesis
  proof (cases "a \<in> set R")
    case True
    then obtain us vs where R1: "R = us @ a # vs" "a \<notin> set us"
      by (meson split_list_first)
    have "b \<notin> set us"
    proof
      assume "b \<in> set us"
      then obtain u1 u2 where u: "us = u1 @ b # u2" by (meson split_list)
      have "R = u1 @ b # (u2 @ a # vs)" unfolding R1(1) u by simp
      then have "a \<in> set u1" by (rule preR)
      then show False using R1(2) u by simp
    qed
    then have "ranks_before a b (us @ a # vs)" using ab by (rule ranks_before_append)
    then show ?thesis unfolding R1(1) by blast
  next
    case False
    have "b \<notin> set R"
    proof
      assume "b \<in> set R"
      then obtain us vs where R2: "R = us @ b # vs" by (meson split_list)
      then have "a \<in> set us" by (rule preR)
      then show False using False R2 by simp
    qed
    then show ?thesis using False by blast
  qed
qed

subsection \<open>The brand names against the keyword tables\<close>

text \<open>
  Facts about the literals of the code, by evaluation: a brand name is a lower-case run
  of letters, is not of the part-number shape, is restored by \<open>_lc\<close> from its capitalised
  form, contains no other brand name and none of the appliance or category keywords,
  and does not start with a non-empty end of \<open>dish washer\<close>.
\<close>

lemma brand_facts:
  "\<forall>t \<in> set BRANDS. t \<noteq> [] \<and> lower t = t \<and> (\<forall>c \<in> set t. \<not> isspace c \<and> istok c \<and> isword c) \<and>
      \<not> partnum_shape t \<and> lc (capitalize t) = t \<and> truthy (Some (capitalize t)) \<and>
      (\<forall>b \<in> set BRANDS. is_in b t \<longrightarrow> b = t)"
  by code_simp

lemma appliance_facts:
  "\<forall>k \<in> set [''dishwasher'', ''refrigerator'', ''fridge'', ''freezer''].
      k \<noteq> [] \<and> (\<forall>c \<in> set k. \<not> isspace c) \<and> (\<forall>t \<in> set BRANDS. \<not> is_in k t)"
  by code_simp

lemma dish_washer_facts:
  "\<forall>t \<in> set BRANDS. \<not> is_in ''dish washer'' t \<and>
      (\<forall>x2 \<in> set (suffixes ''dish washer''). x2 \<noteq> [] \<longrightarrow> \<not> prefix x2 t)"
  by code_simp

lemma category_facts:
  "\<forall>ck \<in> set CATEGORY_KEYS. \<forall>kw \<in> set (snd ck).
      kw \<noteq> [] \<and> (\<forall>c \<in> set kw. \<not> isspace c) \<and> (\<forall>t \<in> set BRANDS. \<not> is_in kw t)"
  by code_simp

lemma isspace_not_istok: "isspace c \<Longrightarrow> \<not> istok c"
  by (auto simp: isspace_def istok_def Let_def)

lemma isspace_not_isword: "isspace c \<Longrightarrow> \<not> isword c"
  by (auto simp: isspace_def isword_def Let_def)

subsection \<open>The guesses and the score after the token is appended\<close>

text \<open>
  \<open>s'\<close> is a query whose lower-cased form is that of \<open>s\<close>, whitespace, and the brand
  name \<open>t\<close>. When no brand name occurs in \<open>s\<close>, the brand guessed for \<open>s'\<close> is \<open>t\<close>; the
  appliance and the category guessed are those of \<open>s\<close>; the tokens are those of \<open>s\<close> and
  \<open>t\<close>. The score of an entry grows by 2.0 if its brand field contains \<open>t\<close>, and by at
  most 0.9 for the new token.
\<close>

lemma find_the_one: "t \<in> set xs \<Longrightarrow> find (\<lambda>b. b = t) xs = Some t"
  by (induction xs) auto

lemma kw_appended:
  assumes "W \<noteq> []" "\<forall>c \<in> set W. isspace c" "lc s' = lc s @ W @ t"
    and "kw \<noteq> []" "\<forall>c \<in> set kw. \<not> isspace c"
  shows "is_in kw (lc s') \<longleftrightarrow> is_in kw (lc s) \<or> is_in kw t"
  unfolding assms(3) using assms(4,5,1,2) by (rule in_gap)

lemma guess_brand_appended:
  assumes t: "t \<in> set BRANDS"
    and W: "W \<noteq> []" "\<forall>c \<in> set W. isspace c" and L: "lc s' = lc s @ W @ t"
    and none: "guess_brand s = None"
  shows "guess_brand s' = Some (capitalize t)"
proof -
  have no: "\<forall>b \<in> set BRANDS. \<not> is_in b (lc s)"
    using none unfolding guess_brand_def by (simp add: find_None_iff)
  have "find (\<lambda>b. is_in b (lc s')) BRANDS = find (\<lambda>b. b = t) BRANDS"
  proof (rule find_cong [OF refl])
    fix b assume b: "b \<in> set BRANDS"
    have "b \<noteq> []" "\<forall>c \<in> set b. \<not> isspace c" using brand_facts b by blast+
    with W L have "is_in b (lc s') \<longleftrightarrow> is_in b (lc s) \<or> is_in b t" by (rule kw_appended)
    moreover have "\<not> is_in b (lc s)" using no b by blast
    moreover have "is_in b t \<longleftrightarrow> b = t"
    proof
      assume "is_in b t"
      then show "b = t" using brand_facts t b by blast
    next
      assume "b = t"
      then show "is_in b t" by (simp add: is_in_sublist)
    qed
    ultimately show "is_in b (lc s') = (b = t)" by simp
  qed
  then show ?thesis unfolding guess_brand_def using find_the_one [OF t] by simp
qed

lemma sublist_no_straddle:
  assumes "x \<noteq> []" "last x \<notin> set W" "\<not> sublist x t"
    and "\<forall>x2 \<in> set (suffixes x). x2 \<noteq> [] \<longrightarrow> \<not> prefix x2 t"
  shows "sublist x (A @ W @ t) \<longleftrightarrow> sublist x A"
proof
  assume "sublist x (A @ W @ t)"
  then have "sublist x ((A @ W) @ t)" by simp
  then consider "sublist x (A @ W)" | "sublist x t"
    | x1 x2 where "x = x1 @ x2" "suffix x1 (A @ W)" "prefix x2 t"
    unfolding sublist_append [of x "A @ W" t] by blast
  then have "sublist x (A @ W)"
  proof cases
    case 1
    then show ?thesis .
  next
    case 2
    then show ?thesis using assms(3) by simp
  next
    case 3
    show ?thesis
    proof (cases "x2 = []")
      case True
      then have "suffix x (A @ W)" using 3(1,2) by simp
      then show ?thesis by (rule suffix_imp_sublist)
    next
      case False
      have "suffix x2 x" unfolding 3(1) by (rule suffixI) simp
      then have "x2 \<in> set (suffixes x)" by (simp add: in_set_suffixes)
      then have "\<not> prefix x2 t" using assms(4) False by blast
      then show ?thesis using 3(3) by simp
    qed
  qed
  then show "sublist x A" using sublist_trailing [OF assms(1,2)] by simp
next
  assume "sublist x A"
  then show "sublist x (A @ W @ t)" by (simp add: sublist_append)
qed

lemma dish_washer_appended:
  assumes t: "t \<in> set BRANDS"
    and W: "\<forall>c \<in> set W. isspace c" and L: "lc s' = lc s @ W @ t"
  shows "is_in ''dish washer'' (lc s') \<longleftrightarrow> is_in ''dish washer'' (lc s)"
proof -
  define x where "x = ''dish washer''"
  have f: "\<not> is_in x t \<and> (\<forall>x2 \<in> set (suffixes x). x2 \<noteq> [] \<longrightarrow> \<not> prefix x2 t)"
    unfolding x_def using dish_washer_facts t by (rule bspec)
  have ne: "x \<noteq> []" unfolding x_def by simp
  have "\<not> isspace (last x)" unfolding x_def by (simp add: isspace_def)
  then have l: "last x \<notin> set W" using W by blast
  have "sublist x (lc s @ W @ t) \<longleftrightarrow> sublist x (lc s)"
    using ne l conjunct1 [OF f, unfolded is_in_sublist] conjunct2 [OF f]
    by (rule sublist_no_straddle)
  then show ?thesis unfolding L is_in_sublist x_def .
qed

lemma guess_appliance_appended:
  assumes t: "t \<in> set BRANDS"
    and W: "W \<noteq> []" "\<forall>c \<in> set W. isspace c" and L: "lc s' = lc s @ W @ t"
  shows "guess_appliance s' d = guess_appliance s d"
proof -
  have k: "is_in k (lc s') \<longleftrightarrow> is_in k (lc s)"
    if "k \<in> set [''dishwasher'', ''refrigerator'', ''fridge'', ''freezer'']" for k
  proof -
    have f: "k \<noteq> []" "\<forall>c \<in> set k. \<not> isspace c" "\<not> is_in k t"
      using appliance_facts that t by blast+
    have "is_in k (lc s') \<longleftrightarrow> is_in k (lc s) \<or> is_in k t"
      using W L f(1,2) by (rule kw_appended)
    then show ?thesis using f(3) by simp
  qed
  have 1: "is_in ''dishwasher'' (lc s') \<longleftrightarrow> is_in ''dishwasher'' (lc s)" by (rule k) simp
  have 2: "any_in [''refrigerator'', ''fridge'', ''freezer''] (lc s')
           = any_in [''refrigerator'', ''fridge'', ''freezer''] (lc s)"
    unfolding any_in_def by (rule bex_cong [OF refl], rule k) auto
  have 3: "is_in ''dish washer'' (lc s') \<longleftrightarrow> is_in ''dish washer'' (lc s)"
    using t W(2) L by (rule dish_washer_appended)
  show ?thesis unfolding guess_appliance_def Let_def by (simp only: 1 2 3)
qed

lemma guess_category_appended:
  assumes t: "t \<in> set BRANDS"
    and W: "W \<noteq> []" "\<forall>c \<in> set W. isspace c" and L: "lc s' = lc s @ W @ t"
  shows "guess_category s' = guess_category s"
proof -
  have k: "is_in kw (lc s') \<longleftrightarrow> is_in kw (lc s)"
    if "ck \<in> set CATEGORY_KEYS" "kw \<in> set (snd ck)" for ck kw
  proof -
    have f: "kw \<noteq> []" "\<forall>c \<in> set kw. \<not> isspace c" "\<not> is_in kw t"
      using category_facts that t by blast+
    have "is_in kw (lc s') \<longleftrightarrow> is_in kw (lc s) \<or> is_in kw t"
      using W L f(1,2) by (rule kw_appended)
    then show ?thesis using f(3) by simp
  qed
  have "fold (\<lambda>(cat, keys) (best, hits).
                let k = length (filter (\<lambda>kw. is_in kw (lc s')) keys)
                in if k > hits then (Some cat, k) else (best, hits)) CATEGORY_KEYS (None, 0)
        = fold (\<lambda>(cat, keys) (best, hits).
                let k = length (filter (\<lambda>kw. is_in kw (lc s)) keys)
                in if k > hits then (Some cat, k) else (best, hits)) CATEGORY_KEYS (None, 0)"
  proof (rule fold_cong [OF refl refl])
    fix ck assume ck: "ck \<in> set CATEGORY_KEYS"
    obtain cat keys where c: "ck = (cat, keys)" by (cases ck)
    have "filter (\<lambda>kw. is_in kw (lc s')) keys = filter (\<lambda>kw. is_in kw (lc s)) keys"
      by (rule filter_cong [OF refl]) (use k [OF ck] c in simp)
    then show "(case ck of (cat, keys) \<Rightarrow> \<lambda>(best, hits).
                let k = length (filter (\<lambda>kw. is_in kw (lc s')) keys)
                in if k > hits then (Some cat, k) else (best, hits))
        = (case ck of (cat, keys) \<Rightarrow> \<lambda>(best, hits).
                let k = length (filter (\<lambda>kw. is_in kw (lc s)) keys)
                in if k > hits then (Some cat, k) else (best, hits))"
      unfolding c by simp
  qed
  then show ?thesis unfolding guess_category_def Let_def by simp
qed

lemma tokens_appended:
  assumes t: "t \<in> set BRANDS"
    and W: "W \<noteq> []" "\<forall>c \<in> set W. isspace c" and L: "lc s' = lc s @ W @ t"
  shows "tokens s' = tokens s @ [t]"
proof -
  have "\<forall>c \<in> set W. \<not> istok c" using W(2) isspace_not_istok by blast
  then have "runs istok (lc s @ W @ t) = runs istok (lc s) @ runs istok t"
    using W(1) by (rule runs_gap)
  moreover have "runs istok t = [t]" using brand_facts t by (intro runs_all) blast+
  ultimately show ?thesis unfolding tokens_def L by simp
qed

lemma token_sum_snoc:
  fixes g :: "string \<Rightarrow> rat"
  shows "(\<Sum>x \<leftarrow> remdups (ts @ [t]). g x)
         = (\<Sum>x \<leftarrow> remdups ts. g x) + (if t \<in> set ts then 0 else g t)"
proof -
  have "(\<Sum>x \<leftarrow> remdups (ts @ [t]). g x) = sum g (set (ts @ [t]))"
    by (simp add: sum_list_distinct_conv_sum_set del: remdups_append2 set_append)
  also have "\<dots> = sum g (insert t (set ts))" by simp
  also have "\<dots> = sum g (set ts) + (if t \<in> set ts then 0 else g t)"
    by (simp add: sum.insert_if insert_absorb)
  also have "sum g (set ts) = (\<Sum>x \<leftarrow> remdups ts. g x)"
    by (simp add: sum_list_distinct_conv_sum_set)
  finally show ?thesis .
qed

lemma score_appended:
  assumes t: "t \<in> set BRANDS"
    and W: "W \<noteq> []" "\<forall>c \<in> set W. isspace c" and L: "lc s' = lc s @ W @ t"
    and none: "guess_brand s = None"
  shows "\<exists>d. 0 \<le> d \<and> d \<le> 9 / 10 \<and>
           score (guess_brand s') (guess_appliance s' None) (guess_category s')
                 (remdups (tokens s')) p
           = score (guess_brand s) (guess_appliance s None) (guess_category s)
                   (remdups (tokens s)) p
             + (if is_in t (lc (item.brand p)) then 2 else 0) + d"
proof -
  define g :: "string \<Rightarrow> rat" where
    "g = (\<lambda>x. (if is_in x (lc (name p)) then 6 / 10 else 0)
             + (if is_in x (lc (description p)) then 3 / 10 else 0))"
  define d where "d = (if t \<in> set (tokens s) then 0 else g t)"
  have b: "guess_brand s' = Some (capitalize t)"
    using t W L none by (rule guess_brand_appended)
  have a: "guess_appliance s' None = guess_appliance s None"
    using t W L by (rule guess_appliance_appended)
  have c: "guess_category s' = guess_category s"
    using t W L by (rule guess_category_appended)
  have k: "tokens s' = tokens s @ [t]" using t W L by (rule tokens_appended)
  have bt: "lc (capitalize t) = t" "truthy (Some (capitalize t))" using brand_facts t by blast+
  have sum: "(\<Sum>x \<leftarrow> remdups (tokens s @ [t]). g x) = (\<Sum>x \<leftarrow> remdups (tokens s). g x) + d"
    unfolding d_def by (rule token_sum_snoc)
  have d: "0 \<le> d" "d \<le> 9 / 10" unfolding d_def g_def by simp_all
  have "score (Some (capitalize t)) (guess_appliance s None) (guess_category s)
              (remdups (tokens s @ [t])) p
        = score None (guess_appliance s None) (guess_category s) (remdups (tokens s)) p
          + (if is_in t (lc (item.brand p)) then 2 else 0) + d"
    unfolding score_def g_def [symmetric] sum using bt
    by (simp add: truthy_def del: remdups_append2)
  then show ?thesis unfolding b a c k none using d by blast
qed

subsection \<open>The scored search and the whole search\<close>

lemma scored_mem:
  "p \<in> set (map snd (sort_key k (filter (\<lambda>(s, p). c \<le> s) (map (\<lambda>p. (f p, p)) items))))
     \<longleftrightarrow> p \<in> set items \<and> c \<le> f p"
  by (auto simp: image_iff)

lemma scored_fst:
  "\<forall>l \<in> set (sort_key k (filter (\<lambda>(s, p). c \<le> s) (map (\<lambda>p. (f p, p)) items))). fst l = f (snd l)"
  by auto

lemma lc_Nil: "lc [] = []"
  by (simp add: lc_def strip_def lower_def)

lemma scored_search_rank:
  assumes t: "t \<in> set BRANDS"
    and W: "W \<noteq> []" "\<forall>c \<in> set W. isspace c" and L: "lc s' = lc s @ W @ t"
    and none: "guess_brand s = None"
    and ha: "is_in t (lc (item.brand a))"
    and hb: "\<not> is_in t (lc (item.brand b))"
    and rb: "ranks_before a b (scored_search items query s)"
  shows "ranks_before a b (scored_search items query' s') \<or>
         (a \<notin> set (scored_search items query' s') \<and> b \<notin> set (scored_search items query' s'))"
proof -
  define f where
    "f = score (guess_brand s) (guess_appliance s None) (guess_category s) (remdups (tokens s))"
  define f' where
    "f' = score (guess_brand s') (guess_appliance s' None) (guess_category s') (remdups (tokens s'))"
  define Lq where
    "Lq = sort_key (\<lambda>(s, p). - s) (filter (\<lambda>(s, p). 6 / 10 \<le> s) (map (\<lambda>p. (f p, p)) items))"
  define Lq' where
    "Lq' = sort_key (\<lambda>(s, p). - s) (filter (\<lambda>(s, p). 6 / 10 \<le> s) (map (\<lambda>p. (f' p, p)) items))"
  define R where "R = take 5 (map snd Lq)"
  define R' where "R' = take 5 (map snd Lq')"
  have ss: "scored_search items query s = (if R = [] then [no_local_results query s] else R)"
    unfolding scored_search_def Let_def R_def Lq_def f_def ..
  have ss': "scored_search items query' s' = (if R' = [] then [no_local_results query' s'] else R')"
    unfolding scored_search_def Let_def R'_def Lq'_def f'_def ..
  have tne: "t \<noteq> []" using brand_facts t by blast
  have ab: "a \<noteq> b" using ha hb by auto
  have mem: "p \<in> set (map snd Lq) \<longleftrightarrow> p \<in> set items \<and> 6 / 10 \<le> f p" for p
    unfolding Lq_def by (rule scored_mem)
  have mem': "p \<in> set (map snd Lq') \<longleftrightarrow> p \<in> set items \<and> 6 / 10 \<le> f' p" for p
    unfolding Lq'_def by (rule scored_mem)
  have fst: "\<forall>l \<in> set Lq. fst l = f (snd l)" unfolding Lq_def by (rule scored_fst)
  have fst': "\<forall>l \<in> set Lq'. fst l = f' (snd l)" unfolding Lq'_def by (rule scored_fst)
  have srt: "sorted (map (\<lambda>(s, p). - s) Lq)" unfolding Lq_def by (rule sorted_sort_key)
  have srt': "sorted (map (\<lambda>(s, p). - s) Lq')" unfolding Lq'_def by (rule sorted_sort_key)
  have Rne: "R \<noteq> []"
  proof
    assume "R = []"
    then have "ranks_before a b [no_local_results query s]" using rb ss by simp
    then have "a = no_local_results query s" by (simp split: if_splits)
    then have "item.brand a = []" by (simp add: no_local_results_def)
    then show False using ha tne by (simp add: lc_Nil)
  qed
  then have rbR: "ranks_before a b (take 5 (map snd Lq))" using rb ss R_def by simp
  obtain us vs where "R = us @ a # vs" using ranks_before_split [OF rbR] R_def by blast
  then have "a \<in> set R" by simp
  then have "a \<in> set (map snd Lq)" unfolding R_def by (rule in_set_takeD)
  then have a: "a \<in> set items" "6 / 10 \<le> f a" using mem by blast+
  obtain da where da: "0 \<le> da" "f' a = f a + (if is_in t (lc (item.brand a)) then 2 else 0) + da"
    using score_appended [OF t W L none, of a] unfolding f_def f'_def by blast
  obtain db where db: "db \<le> 9 / 10" "f' b = f b + (if is_in t (lc (item.brand b)) then 2 else 0) + db"
    using score_appended [OF t W L none, of b] unfolding f_def f'_def by blast
  have fa: "f a + 2 \<le> f' a" using da ha by simp
  have fb: "f' b \<le> f b + 9 / 10" using db hb by simp
  have a': "a \<in> set (map snd Lq')" using mem' a fa by simp
  have lt: "f' b < f' a" if "b \<in> set (map snd Lq')"
  proof (cases "6 / 10 \<le> f b")
    case True
    have "b \<in> set items" using that mem' by blast
    then have "b \<in> set (map snd Lq)" using True mem by blast
    with fst srt rbR have "f b \<le> f a" by (rule ranked_before_score)
    then show ?thesis using fa fb by simp
  next
    case False
    then show ?thesis using fa fb a(2) by simp
  qed
  have res: "ranks_before a b R' \<or> (a \<notin> set R' \<and> b \<notin> set R')"
    using fst' srt' a' ab lt R'_def by (rule score_ranked_before)
  have "map snd Lq' \<noteq> []" using a' by auto
  then have "R' \<noteq> []" unfolding R'_def by simp
  then show ?thesis using res ss' by simp
qed

lemma partnum_search_appended:
  assumes t: "t \<in> set BRANDS" and q: "strip q \<noteq> []"
  shows "partnum_search (strip (q @ CHR '' '' # t)) = partnum_search (strip q)"
proof -
  have tf: "t \<noteq> []" "\<forall>c \<in> set t. \<not> isspace c" "\<forall>c \<in> set t. isword c" "\<not> partnum_shape t"
    using brand_facts t by blast+
  have "\<exists>c \<in> set q. \<not> isspace c" using q strip_blank [of q] by blast
  then have 1: "strip (q @ CHR '' '' # t) = dropWhile isspace q @ CHR '' '' # t"
    using tf(1,2) by (rule strip_append_token)
  obtain ws where ws: "\<forall>c \<in> set ws. isspace c" "dropWhile isspace q = strip q @ ws"
    using strip_trailing [of q] by blast
  have sp: "isspace (CHR '' '')" by (simp add: isspace_def)
  have "\<forall>c \<in> set (ws @ [CHR '' '']). \<not> isword c"
    using ws(1) sp isspace_not_isword by auto
  then have "runs isword (strip q @ (ws @ [CHR '' '']) @ t) = runs isword (strip q) @ runs isword t"
    by (rule runs_gap) simp
  moreover have "runs isword t = [t]" using tf(1,3) by (rule runs_all)
  ultimately have "word_runs (strip (q @ CHR '' '' # t)) = word_runs (strip q) @ [t]"
    unfolding word_runs_def 1 ws(2) by simp
  then show ?thesis unfolding partnum_search_def using find_snoc [of partnum_shape t "word_runs (strip q)"] tf(4) by simp
qed

lemma search_query:
  "search items q None =
     (if strip q = [] then []
      else (case partnum_search (strip q) of
              None \<Rightarrow> scored_search items q (strip q)
            | Some m \<Rightarrow>
                if filter (\<lambda>p. lc (partNumber p) = lc (upper m)) items \<noteq> []
                then take 5 (filter (\<lambda>p. lc (partNumber p) = lc (upper m)) items)
                else scored_search items q (strip q)))"
  unfolding search_def Let_def truthy_def by (simp only: option.case if_False)

text \<open>
  C8 (amended): let no brand name of \<open>BRANDS\<close> occur in the query, and let \<open>t\<close> be a
  brand name of \<open>BRANDS\<close> that occurs in the brand field of the entry \<open>a\<close> and not in the
  brand field of the entry \<open>b\<close>. If \<open>a\<close> is listed before \<open>b\<close> in the result of \<open>search\<close> for
  the query, then in the result for the query with a space and \<open>t\<close> appended \<open>a\<close> is again
  listed before \<open>b\<close>, unless the cut at five results drops both of them.
\<close>

theorem brand_token_keeps_rank:
  assumes "t \<in> set BRANDS"
    and "guess_brand q = None"
    and "is_in t (lc (item.brand a))"
    and "\<not> is_in t (lc (item.brand b))"
    and "ranks_before a b (search items q None)"
  shows "ranks_before a b (search items (q @ '' '' @ t) None) \<or>
         (a \<notin> set (search items (q @ '' '' @ t) None) \<and>
          b \<notin> set (search items (q @ '' '' @ t) None))"
proof -
  define q' where "q' = q @ CHR '' '' # t"
  have q'eq: "q @ '' '' @ t = q'" unfolding q'_def by simp
  have tf: "t \<noteq> []" "\<forall>c \<in> set t. \<not> isspace c" "lower t = t"
    using brand_facts assms(1) by blast+
  have sq: "strip q \<noteq> []"
  proof
    assume "strip q = []"
    then have "search items q None = []" unfolding search_query by simp
    then show False using assms(5) by simp
  qed
  then have lq: "lc q \<noteq> []" by (simp add: lc_def lower_def)
  obtain W where W: "W \<noteq> []" "\<forall>c \<in> set W. isspace c" and L: "lc q' = lc q @ W @ t"
    using lc_append_token [OF lq tf] unfolding q'_def by blast
  have L': "lc (strip q') = lc (strip q) @ W @ t" unfolding lc_strip by (rule L)
  have "lc q' \<noteq> []" unfolding L using lq by simp
  then have sq': "strip q' \<noteq> []" by (auto simp: lc_def lower_def)
  have none: "guess_brand (strip q) = None"
    using assms(2) unfolding guess_brand_def lc_strip .
  have pm: "partnum_search (strip q') = partnum_search (strip q)"
    unfolding q'_def using assms(1) sq by (rule partnum_search_appended)
  have scored: "ranks_before a b (scored_search items q' (strip q')) \<or>
      (a \<notin> set (scored_search items q' (strip q')) \<and> b \<notin> set (scored_search items q' (strip q')))"
    if "ranks_before a b (scored_search items q (strip q))"
    using assms(1) W L' none assms(3,4) that by (rule scored_search_rank)
  have "ranks_before a b (search items q' None) \<or>
        (a \<notin> set (search items q' None) \<and> b \<notin> set (search items q' None))"
  proof (cases "partnum_search (strip q)")
    case None
    have 1: "search items q None = scored_search items q (strip q)"
      unfolding search_query using sq None by simp
    have 2: "search items q' None = scored_search items q' (strip q')"
      unfolding search_query using sq' pm None by simp
    show ?thesis unfolding 2 using assms(5) unfolding 1 by (rule scored)
  next
    case (Some m)
    show ?thesis
    proof (cases "filter (\<lambda>p. lc (partNumber p) = lc (upper m)) items = []")
      case True
      have 1: "search items q None = scored_search items q (strip q)"
        unfolding search_query using sq Some True by simp
      have 2: "search items q' None = scored_search items q' (strip q')"
        unfolding search_query using sq' pm Some True by simp
      show ?thesis unfolding 2 using assms(5) unfolding 1 by (rule scored)
    next
      case False
      have 1: "search items q None = take 5 (filter (\<lambda>p. lc (partNumber p) = lc (upper m)) items)"
        unfolding search_query using sq Some False by simp
      have 2: "search items q' None = take 5 (filter (\<lambda>p. lc (partNumber p) = lc (upper m)) items)"
        unfolding search_query using sq' pm Some False by simp
      show ?thesis unfolding 2 using assms(5) unfolding 1 by (rule disjI1)
    qed
  qed
  then show ?thesis unfolding q'eq .
qed

text \<open>
  The theorem at a catalog of two rack entries and the query \<open>rack\<close>: the GE entry is
  listed first, and it is still listed first for \<open>rack ge\<close>, although the other entry's
  name and description contain the letters \<open>ge\<close>.
\<close>

theorem brand_token_keeps_rank_witness:
  "''ge'' \<in> set BRANDS \<and> guess_brand ''rack'' = None \<and>
   is_in ''ge'' (lc (item.brand
      \<lparr>partNumber = ''W10350375'', name = ''rack'', brand = ''GE'', appliance = ''dishwasher'',
        category = ''rack'', description = [], officialURL = [], installGuide = None,
        models = [], brands = []\<rparr>)) \<and>
   \<not> is_in ''ge'' (lc (item.brand
      \<lparr>partNumber = ''DA9713718'', name = ''large bin'', brand = ''Bosch'',
        appliance = ''refrigerator'', category = ''rack'', description = ''rack storage'',
        officialURL = [], installGuide = None, models = [], brands = []\<rparr>)) \<and>
   ranks_before
      \<lparr>partNumber = ''W10350375'', name = ''rack'', brand = ''GE'', appliance = ''dishwasher'',
        category = ''rack'', description = [], officialURL = [], installGuide = None,
        models = [], brands = []\<rparr>
      \<lparr>partNumber = ''DA9713718'', name = ''large bin'', brand = ''Bosch'',
        appliance = ''refrigerator'', category = ''rack'', description = ''rack storage'',
        officialURL = [], installGuide = None, models = [], brands = []\<rparr>
      (search
      [\<lparr>partNumber = ''W10350375'', name = ''rack'', brand = ''GE'', appliance = ''dishwasher'',
        category = ''rack'', description = [], officialURL = [], installGuide = None,
        models = [], brands = []\<rparr>,
       \<lparr>partNumber = ''DA9713718'', name = ''large bin'', brand = ''Bosch'',
        appliance = ''refrigerator'', category = ''rack'', description = ''rack storage'',
        officialURL = [], installGuide = None, models = [], brands = []\<rparr>]
      ''rack'' None) \<and>
   ranks_before
      \<lparr>partNumber = ''W10350375'', name = ''rack'', brand = ''GE'', appliance = ''dishwasher'',
        category = ''rack'', description = [], officialURL = [], installGuide = None,
        models = [], brands = []\<rparr>
      \<lparr>partNumber = ''DA9713718'', name = ''large bin'', brand = ''Bosch'',
        appliance = ''refrigerator'', category = ''rack'', description = ''rack storage'',
        officialURL = [], installGuide = None, models = [], brands = []\<rparr>
      (search
      [\<lparr>partNumber = ''W10350375'', name = ''rack'', brand = ''GE'', appliance = ''dishwasher'',
        category = ''rack'', description = [], officialURL = [], installGuide = None,
        models = [], brands = []\<rparr>,
       \<lparr>partNumber = ''DA9713718'', name = ''large bin'', brand = ''Bosch'',
        appliance = ''refrigerator'', category = ''rack'', description = ''rack storage'',
        officialURL = [], installGuide = None, models = [], brands = []\<rparr>]
      (''rack'' @ '' '' @ ''ge'') None)"
proof -
  have 1: "''ge'' \<in> set BRANDS" by code_simp
  have 2: "guess_brand ''rack'' = None" by code_simp
  have 3: "is_in ''ge'' (lc (item.brand
      \<lparr>partNumber = ''W10350375'', name = ''rack'', brand = ''GE'', appliance = ''dishwasher'',
        category = ''rack'', description = [], officialURL = [], installGuide = None,
        models = [], brands = []\<rparr>))" by code_simp
  have 4: "\<not> is_in ''ge'' (lc (item.brand
      \<lparr>partNumber = ''DA9713718'', name = ''large bin'', brand = ''Bosch'',
        appliance = ''refrigerator'', category = ''rack'', description = ''rack storage'',
        officialURL = [], installGuide = None, models = [], brands = []\<rparr>))" by code_simp
  have 5: "ranks_before
      \<lparr>partNumber = ''W10350375'', name = ''rack'', brand = ''GE'', appliance = ''dishwasher'',
        category = ''rack'', description = [], officialURL = [], installGuide = None,
        models = [], brands = []\<rparr>
      \<lparr>partNumber = ''DA9713718'', name = ''large bin'', brand = ''Bosch'',
        appliance = ''refrigerator'', category = ''rack'', description = ''rack storage'',
        officialURL = [], installGuide = None, models = [], brands = []\<rparr>
      (search
      [\<lparr>partNumber = ''W10350375'', name = ''rack'', brand = ''GE'', appliance = ''dishwasher'',
        category = ''rack'', description = [], officialURL = [], installGuide = None,
        models = [], brands = []\<rparr>,
       \<lparr>partNumber = ''DA9713718'', name = ''large bin'', brand = ''Bosch'',
        appliance = ''refrigerator'', category = ''rack'', description = ''rack storage'',
        officialURL = [], installGuide = None, models = [], brands = []\<rparr>]
      ''rack'' None)" by code_simp
  have 6: "\<lparr>partNumber = ''W10350375'', name = ''rack'', brand = ''GE'', appliance = ''dishwasher'',
        category = ''rack'', description = [], officialURL = [], installGuide = None,
        models = [], brands = []\<rparr>
    \<in> set (search
      [\<lparr>partNumber = ''W10350375'', name = ''rack'', brand = ''GE'', appliance = ''dishwasher'',
        category = ''rack'', description = [], officialURL = [], installGuide = None,
        models = [], brands = []\<rparr>,
       \<lparr>partNumber = ''DA9713718'', name = ''large bin'', brand = ''Bosch'',
        appliance = ''refrigerator'', category = ''rack'', description = ''rack storage'',
        officialURL = [], installGuide = None, models = [], brands = []\<rparr>]
      (''rack'' @ '' '' @ ''ge'') None)" by code_simp
  have 7: "ranks_before
      \<lparr>partNumber = ''W10350375'', name = ''rack'', brand = ''GE'', appliance = ''dishwasher'',
        category = ''rack'', description = [], officialURL = [], installGuide = None,
        models = [], brands = []\<rparr>
      \<lparr>partNumber = ''DA9713718'', name = ''large bin'', brand = ''Bosch'',
        appliance = ''refrigerator'', category = ''rack'', description = ''rack storage'',
        officialURL = [], installGuide = None, models = [], brands = []\<rparr>
      (search
      [\<lparr>partNumber = ''W10350375'', name = ''rack'', brand = ''GE'', appliance = ''dishwasher'',
        category = ''rack'', description = [], officialURL = [], installGuide = None,
        models = [], brands = []\<rparr>,
       \<lparr>partNumber = ''DA9713718'', name = ''large bin'', brand = ''Bosch'',
        appliance = ''refrigerator'', category = ''rack'', description = ''rack storage'',
        officialURL = [], installGuide = None, models = [], brands = []\<rparr>]
      (''rack'' @ '' '' @ ''ge'') None)"
    using brand_token_keeps_rank [OF 1 2 3 4 5]
  proof (rule disjE)
    assume "ranks_before
      \<lparr>partNumber = ''W10350375'', name = ''rack'', brand = ''GE'', appliance = ''dishwasher'',
        category = ''rack'', description = [], officialURL = [], installGuide = None,
        models = [], brands = []\<rparr>
      \<lparr>partNumber = ''DA9713718'', name = ''large bin'', brand = ''Bosch'',
        appliance = ''refrigerator'', category = ''rack'', description = ''rack storage'',
        officialURL = [], installGuide = None, models = [], brands = []\<rparr>
      (search
      [\<lparr>partNumber = ''W10350375'', name = ''rack'', brand = ''GE'', appliance = ''dishwasher'',
        category = ''rack'', description = [], officialURL = [], installGuide = None,
        models = [], brands = []\<rparr>,
       \<lparr>partNumber = ''DA9713718'', name = ''large bin'', brand = ''Bosch'',
        appliance = ''refrigerator'', category = ''rack'', description = ''rack storage'',
        officialURL = [], installGuide = None, models = [], brands = []\<rparr>]
      (''rack'' @ '' '' @ ''ge'') None)"
    then show ?thesis .
  next
    assume "\<lparr>partNumber = ''W10350375'', name = ''rack'', brand = ''GE'', appliance = ''dishwasher'',
        category = ''rack'', description = [], officialURL = [], installGuide = None,
        models = [], brands = []\<rparr>
      \<notin> set (search
      [\<lparr>partNumber = ''W10350375'', name = ''rack'', brand = ''GE'', appliance = ''dishwasher'',
        category = ''rack'', description = [], officialURL = [], installGuide = None,
        models = [], brands = []\<rparr>,
       \<lparr>partNumber = ''DA9713718'', name = ''large bin'', brand = ''Bosch'',
        appliance = ''refrigerator'', category = ''rack'', description = ''rack storage'',
        officialURL = [], installGuide = None, models = [], brands = []\<rparr>]
      (''rack'' @ '' '' @ ''ge'') None) \<and>
      \<lparr>partNumber = ''DA9713718'', name = ''large bin'', brand = ''Bosch'',
        appliance = ''refrigerator'', category = ''rack'', description = ''rack storage'',
        officialURL = [], installGuide = None, models = [], brands = []\<rparr>
      \<notin> set (search
      [\<lparr>partNumber = ''W10350375'', name = ''rack'', brand = ''GE'', appliance = ''dishwasher'',
        category = ''rack'', description = [], officialURL = [], installGuide = None,
        models = [], brands = []\<rparr>,
       \<lparr>partNumber = ''DA9713718'', name = ''large bin'', brand = ''Bosch'',
        appliance = ''refrigerator'', category = ''rack'', description = ''rack storage'',
        officialURL = [], installGuide = None, models = [], brands = []\<rparr>]
      (''rack'' @ '' '' @ ''ge'') None)"
    then have "\<lparr>partNumber = ''W10350375'', name = ''rack'', brand = ''GE'', appliance = ''dishwasher'',
        category = ''rack'', description = [], officialURL = [], installGuide = None,
        models = [], brands = []\<rparr>
      \<notin> set (search
      [\<lparr>partNumber = ''W10350375'', name = ''rack'', brand = ''GE'', appliance = ''dishwasher'',
        category = ''rack'', description = [], officialURL = [], installGuide = None,
        models = [], brands = []\<rparr>,
       \<lparr>partNumber = ''DA9713718'', name = ''large bin'', brand = ''Bosch'',
        appliance = ''refrigerator'', category = ''rack'', description = ''rack storage'',
        officialURL = [], installGuide = None, models = [], brands = []\<rparr>]
      (''rack'' @ '' '' @ ''ge'') None)" by (rule conjunct1)
    then show ?thesis using 6 by (rule notE)
  qed
  show ?thesis by (intro conjI) (rule 1, rule 2, rule 3, rule 4, rule 5, rule 7)
qed

text \<open>
  C8 (counterexample to the claim as stated): both entries have category \<open>rack\<close>, which
  the query \<open>fridge rack\<close> matches, and the GE entry is listed first. The brand token
  \<open>ge\<close> occurs in the GE entry's brand field and not in the Bosch entry's. The query
  already contains the letters \<open>ge\<close> (in \<open>fridge\<close>), so the brand was detected before the
  token was appended; the appended token adds nothing to the GE entry and adds the
  token bonuses to the Bosch entry, whose name and description contain \<open>ge\<close>. The
  Bosch entry is then listed first.
\<close>

theorem brand_token_rank_counterexample:
  "''ge'' \<in> set BRANDS \<and>
   guess_category ''fridge rack'' = Some ''rack'' \<and>
   is_in ''rack'' (lc (category
      \<lparr>partNumber = ''W10350375'', name = ''rack'', brand = ''GE'', appliance = ''dishwasher'',
        category = ''rack'', description = [], officialURL = [], installGuide = None,
        models = [], brands = []\<rparr>)) \<and>
   is_in ''ge'' (lc (item.brand
      \<lparr>partNumber = ''W10350375'', name = ''rack'', brand = ''GE'', appliance = ''dishwasher'',
        category = ''rack'', description = [], officialURL = [], installGuide = None,
        models = [], brands = []\<rparr>)) \<and>
   \<not> is_in ''ge'' (lc (item.brand
      \<lparr>partNumber = ''DA9713718'', name = ''large bin'', brand = ''Bosch'',
        appliance = ''refrigerator'', category = ''rack'', description = ''rack storage'',
        officialURL = [], installGuide = None, models = [], brands = []\<rparr>)) \<and>
   ranks_before
      \<lparr>partNumber = ''W10350375'', name = ''rack'', brand = ''GE'', appliance = ''dishwasher'',
        category = ''rack'', description = [], officialURL = [], installGuide = None,
        models = [], brands = []\<rparr>
      \<lparr>partNumber = ''DA9713718'', name = ''large bin'', brand = ''Bosch'',
        appliance = ''refrigerator'', category = ''rack'', description = ''rack storage'',
        officialURL = [], installGuide = None, models = [], brands = []\<rparr>
      (search
      [\<lparr>partNumber = ''W10350375'', name = ''rack'', brand = ''GE'', appliance = ''dishwasher'',
        category = ''rack'', description = [], officialURL = [], installGuide = None,
        models = [], brands = []\<rparr>,
       \<lparr>partNumber = ''DA9713718'', name = ''large bin'', brand = ''Bosch'',
        appliance = ''refrigerator'', category = ''rack'', description = ''rack storage'',
        officialURL = [], installGuide = None, models = [], brands = []\<rparr>]
      ''fridge rack'' None) \<and>
   ranks_before
      \<lparr>partNumber = ''DA9713718'', name = ''large bin'', brand = ''Bosch'',
        appliance = ''refrigerator'', category = ''rack'', description = ''rack storage'',
        officialURL = [], installGuide = None, models = [], brands = []\<rparr>
      \<lparr>partNumber = ''W10350375'', name = ''rack'', brand = ''GE'', appliance = ''dishwasher'',
        category = ''rack'', description = [], officialURL = [], installGuide = None,
        models = [], brands = []\<rparr>
      (search
      [\<lparr>partNumber = ''W10350375'', name = ''rack'', brand = ''GE'', appliance = ''dishwasher'',
        category = ''rack'', description = [], officialURL = [], installGuide = None,
        models = [], brands = []\<rparr>,
       \<lparr>partNumber = ''DA9713718'', name = ''large bin'', brand = ''Bosch'',
        appliance = ''refrigerator'', category = ''rack'', description = ''rack storage'',
        officialURL = [], installGuide = None, models = [], brands = []\<rparr>]
      (''fridge rack'' @ '' '' @ ''ge'') None) \<and>
   map name (search
      [\<lparr>partNumber = ''W10350375'', name = ''rack'', brand = ''GE'', appliance = ''dishwasher'',
        category = ''rack'', description = [], officialURL = [], installGuide = None,
        models = [], brands = []\<rparr>,
       \<lparr>partNumber = ''DA9713718'', name = ''large bin'', brand = ''Bosch'',
        appliance = ''refrigerator'', category = ''rack'', description = ''rack storage'',
        officialURL = [], installGuide = None, models = [], brands = []\<rparr>]
      ''fridge rack'' None) = [''rack'', ''large bin''] \<and>
   map name (search
      [\<lparr>partNumber = ''W10350375'', name = ''rack'', brand = ''GE'', appliance = ''dishwasher'',
        category = ''rack'', description = [], officialURL = [], installGuide = None,
        models = [], brands = []\<rparr>,
       \<lparr>partNumber = ''DA9713718'', name = ''large bin'', brand = ''Bosch'',
        appliance = ''refrigerator'', category = ''rack'', description = ''rack storage'',
        officialURL = [], installGuide = None, models = [], brands = []\<rparr>]
      (''fridge rack'' @ '' '' @ ''ge'') None) = [''large bin'', ''rack'']"
  by code_simp

end
